theory Spec2Isabelle
  imports Main "HOL-Library.Sublist" "HOL-Library.AList"
begin

section \<open>Python values\<close>

text \<open>
  A Python \<open>str\<close> is a sequence of Unicode code points, so it is modelled as a list of
  natural numbers (the Euro sign is the single code point 8364, not three bytes).
  ASCII literals of the source are written \<open>str ''...''\<close>.
\<close>

type_synonym pystr = "nat list"

definition str :: "string \<Rightarrow> pystr" where
  "str s = map of_char s"

text \<open>The exceptions the program can raise; the message is kept where the source gives one.\<close>

datatype error =
    ValueError string
  | InvalidInputException string
  | TypeError
  | AttributeError
  | KeyError
  | UnicodeDecodeError
  | FileNotFoundError
  | csv_Error string

text \<open>\<open>sub in s\<close> on strings: \<open>sub\<close> occurs as a contiguous slice of \<open>s\<close>.\<close>

fun contains :: "pystr \<Rightarrow> pystr \<Rightarrow> bool" where
  "contains sub [] = (sub = [])"
| "contains sub (c # cs) = (prefix sub (c # cs) \<or> contains sub cs)"

text \<open>\<open>s.startswith(sig)\<close>.\<close>

definition startswith :: "pystr \<Rightarrow> pystr \<Rightarrow> bool" where
  "startswith s sig = prefix sig s"

text \<open>
  \<open>s.replace(old, new)\<close>: every non-overlapping occurrence of \<open>old\<close>, found from the
  left, is replaced; an empty \<open>old\<close> matches before every character and at the end.
\<close>

function replace :: "pystr \<Rightarrow> pystr \<Rightarrow> pystr \<Rightarrow> pystr" where
  "replace [] old new = (if old = [] then new else [])"
| "replace (c # cs) old new =
     (if old = [] then new @ c # replace cs old new
      else if prefix old (c # cs) then new @ replace (drop (length old) (c # cs)) old new
      else c # replace cs old new)"
  by pat_completeness auto
termination
  by (relation "measure (\<lambda>(s, old, new). length s)") (auto simp: Suc_le_eq)

text \<open>
  \<open>str.isspace\<close> of a single character, which is what \<open>str.strip()\<close> removes at both
  ends: the code points with bidirectional class WS, B or S, or of category Zs.
\<close>

definition isspace :: "nat \<Rightarrow> bool" where
  "isspace c \<longleftrightarrow>
     (9 \<le> c \<and> c \<le> 13) \<or> (28 \<le> c \<and> c \<le> 32) \<or> c = 133 \<or> c = 160 \<or> c = 5760 \<or>
     (8192 \<le> c \<and> c \<le> 8202) \<or> c = 8232 \<or> c = 8233 \<or> c = 8239 \<or> c = 8287 \<or> c = 12288"

definition lstrip :: "pystr \<Rightarrow> pystr" where
  "lstrip s = dropWhile isspace s"

definition rstrip :: "pystr \<Rightarrow> pystr" where
  "rstrip s = rev (dropWhile isspace (rev s))"

definition strip :: "pystr \<Rightarrow> pystr" where
  "strip s = rstrip (lstrip s)"

text \<open>
  The values a cell of a row dictionary can hold: \<open>None\<close>, a string or an integer.
\<close>

datatype pyval = PNone | PStr pystr | PInt int

text \<open>
  A method of \<open>str\<close> called on a value: on \<open>None\<close> the attribute lookup raises
  \<open>AttributeError\<close> (as it does on an integer, which has no such method).
\<close>

fun str_method :: "pyval \<Rightarrow> error + pystr" where
  "str_method (PStr s) = Inr s"
| "str_method _ = Inl AttributeError"

section \<open>Currency stripping\<close>

text \<open>
  \<^verbatim>\<open>
  def strip_currency(currency_string):
      return currency_string.replace("\<euro>", "").strip()
  \<close>
  where the literal is the Euro sign, the one code point U+20AC.
\<close>

definition euro_sign :: pystr where
  "euro_sign = [8364]"

definition strip_currency :: "pyval \<Rightarrow> error + pystr" where
  "strip_currency currency_string =
     (case str_method currency_string of
        Inl e \<Rightarrow> Inl e
      | Inr s \<Rightarrow> Inr (strip (replace s euro_sign [])))"

section \<open>Files, encodings and lines\<close>

text \<open>
  A file is its bytes. The program opens files in text mode, so the bytes reach it
  through \<open>io.TextIOWrapper\<close>: the wrapper takes the bytes from the buffered reader one
  chunk at a time, passes each chunk through the incremental decoder of the encoding
  and then through the incremental newline decoder, and hands out text from what has
  been decoded so far. A read therefore decodes only as many chunks as it needs, and a
  byte sequence that does not decode raises \<open>UnicodeDecodeError\<close> only when the chunk
  holding it is reached. The model follows this chunk by chunk.
\<close>

type_synonym bytes = "char list"
type_synonym path = pystr
type_synonym filesystem = "path \<rightharpoonup> bytes"

datatype encoding = utf_8_sig | iso_8859_1

text \<open>
  Strict UTF-8 as the decoder of CPython reads it (no overlong forms, no surrogates,
  nothing above U+10FFFF), on the bytes at hand. The result is the text decoded and
  the bytes of an incomplete sequence at the end, which are kept for the next chunk;
  when \<open>final\<close> holds there is no next chunk and an incomplete sequence is an error.
  The second byte of a three or four byte sequence is checked against the lead byte as
  soon as it is there. One irregularity of the decoder is kept: a lead byte \<open>0xED\<close>
  followed by a byte in \<open>0xA0..0xBF\<close> at the very end of the bytes at hand (the start of
  an encoded surrogate) counts as incomplete, and so fails only with the next chunk.
\<close>

definition continuation :: "nat \<Rightarrow> bool" where
  "continuation b \<longleftrightarrow> 128 \<le> b \<and> b < 192"

definition second_of_three :: "nat \<Rightarrow> nat \<Rightarrow> bool" where
  "second_of_three b c \<longleftrightarrow>
     continuation c \<and> \<not> (b = 224 \<and> c < 160) \<and> \<not> (b = 237 \<and> 160 \<le> c)"

definition second_of_four :: "nat \<Rightarrow> nat \<Rightarrow> bool" where
  "second_of_four b c \<longleftrightarrow>
     continuation c \<and> \<not> (b = 240 \<and> c < 144) \<and> \<not> (b = 244 \<and> 144 \<le> c)"

definition incomplete :: "bool \<Rightarrow> nat list \<Rightarrow> (pystr \<times> nat list) option" where
  "incomplete final pending = (if final then None else Some ([], pending))"

definition decoded :: "nat \<Rightarrow> (pystr \<times> nat list) option \<Rightarrow> (pystr \<times> nat list) option" where
  "decoded cp r = (case r of None \<Rightarrow> None | Some (output, pending) \<Rightarrow> Some (cp # output, pending))"

fun utf_8_decode :: "bool \<Rightarrow> nat list \<Rightarrow> (pystr \<times> nat list) option" where
  "utf_8_decode final [] = Some ([], [])"
| "utf_8_decode final (b # bs) =
     (if b < 128 then decoded b (utf_8_decode final bs)
      else if 194 \<le> b \<and> b < 224 then
        (case bs of
           [] \<Rightarrow> incomplete final [b]
         | c1 # others \<Rightarrow>
             if continuation c1
             then decoded ((b - 192) * 64 + (c1 - 128)) (utf_8_decode final others)
             else None)
      else if 224 \<le> b \<and> b < 240 then
        (case bs of
           [] \<Rightarrow> incomplete final [b]
         | [c1] \<Rightarrow>
             if second_of_three b c1 \<or> (b = 237 \<and> 160 \<le> c1 \<and> c1 < 192)
             then incomplete final [b, c1]
             else None
         | c1 # c2 # others \<Rightarrow>
             if second_of_three b c1 \<and> continuation c2
             then decoded ((b - 224) * 4096 + (c1 - 128) * 64 + (c2 - 128))
                    (utf_8_decode final others)
             else None)
      else if 240 \<le> b \<and> b < 245 then
        (case bs of
           [] \<Rightarrow> incomplete final [b]
         | [c1] \<Rightarrow> if second_of_four b c1 then incomplete final [b, c1] else None
         | [c1, c2] \<Rightarrow>
             if second_of_four b c1 \<and> continuation c2
             then incomplete final [b, c1, c2]
             else None
         | c1 # c2 # c3 # others \<Rightarrow>
             if second_of_four b c1 \<and> continuation c2 \<and> continuation c3
             then decoded ((b - 240) * 262144 + (c1 - 128) * 4096 + (c2 - 128) * 64 + (c3 - 128))
                    (utf_8_decode final others)
             else None)
      else None)"

text \<open>
  The state of the decoders of one open file: \<open>first\<close> holds until the start of the
  file has been looked at for a byte order mark, \<open>buffer\<close> is the bytes kept from the
  chunks before, and \<open>pendingcr\<close> holds when the text decoded so far ended in a \<open>\r\<close>
  that is held back until it is known whether a \<open>\n\<close> follows.
\<close>

record decoder =
  first :: bool
  buffer :: "nat list"
  pendingcr :: bool

definition BOM_UTF8 :: "nat list" where
  "BOM_UTF8 = [239, 187, 191]"

text \<open>
  The incremental decoder of the encoding. \<open>iso-8859-1\<close> maps every byte to the code
  point of the same number and never fails. \<open>utf-8-sig\<close> is UTF-8 that drops one byte
  order mark at the start of the file; while fewer than three bytes are at hand and
  they are a prefix of the mark, it waits for more (also at the end of the file, where
  such bytes are dropped without an error).
\<close>

definition codec_decode :: "encoding \<Rightarrow> decoder \<Rightarrow> nat list \<Rightarrow> bool \<Rightarrow> error + pystr \<times> decoder" where
  "codec_decode enc self input final =
     (case enc of
        iso_8859_1 \<Rightarrow> Inr (input, self)
      | utf_8_sig \<Rightarrow>
          (let data = buffer self @ input
           in if first self \<and> length data < 3 \<and> prefix data BOM_UTF8
              then Inr ([], self\<lparr>buffer := data\<rparr>)
              else (case utf_8_decode final
                           (if first self \<and> take 3 data = BOM_UTF8 then drop 3 data else data) of
                      None \<Rightarrow> Inl UnicodeDecodeError
                    | Some (output, pending) \<Rightarrow>
                        Inr (output, self\<lparr>first := False, buffer := pending\<rparr>))))"

text \<open>
  Files are opened with the default \<open>newline=None\<close>: \<open>\r\n\<close> and a lone \<open>\r\<close> are read
  as \<open>\n\<close>.
\<close>

fun universal_newlines :: "pystr \<Rightarrow> pystr" where
  "universal_newlines [] = []"
| "universal_newlines [c] = [if c = 13 then 10 else c]"
| "universal_newlines (c # d # cs) =
     (if c = 13 \<and> d = 10 then 10 # universal_newlines cs
      else if c = 13 then 10 # universal_newlines (d # cs)
      else c # universal_newlines (d # cs))"

text \<open>
  The incremental newline decoder: a \<open>\r\<close> held back from the chunk before is put in
  front of the text of this chunk, a \<open>\r\<close> at the end of this chunk is held back unless
  the file ends here, and the newlines of what remains are translated.
\<close>

definition newline_decode :: "decoder \<Rightarrow> pystr \<Rightarrow> bool \<Rightarrow> pystr \<times> decoder" where
  "newline_decode self output final =
     (let released = pendingcr self \<and> (final \<or> output \<noteq> []);
          output1 = (if released then 13 # output else output);
          held = (\<not> final \<and> output1 \<noteq> [] \<and> last output1 = 13)
      in (universal_newlines (if held then butlast output1 else output1),
          self\<lparr>pendingcr := (held \<or> (pendingcr self \<and> \<not> released))\<rparr>))"

definition decode :: "encoding \<Rightarrow> decoder \<Rightarrow> nat list \<Rightarrow> bool \<Rightarrow> error + pystr \<times> decoder" where
  "decode enc self input final =
     (case codec_decode enc self input final of
        Inl e \<Rightarrow> Inl e
      | Inr (output, self') \<Rightarrow> Inr (newline_decode self' output final))"

text \<open>
  The wrapper asks the buffered reader for \<open>_CHUNK_SIZE = 8192\<close> bytes at a time; on a
  regular file that is the next 8192 bytes, or what is left of the file.
\<close>

definition chunk_size :: nat where
  "chunk_size = 8192"

function chunks_of :: "nat list \<Rightarrow> nat list list" where
  "chunks_of bs = (if bs = [] then [] else take chunk_size bs # chunks_of (drop chunk_size bs))"
  by pat_completeness auto
termination
  by (relation "measure length") (simp_all add: chunk_size_def)

declare chunks_of.simps [simp del]

text \<open>
  Reading a file from its start gives one piece of text per chunk, and one more for the
  end of the file, where the decoders are told that no more bytes follow. The pieces
  stop at the first chunk that does not decode; the second component is then the
  exception, which a read raises when it gets that far.
\<close>

fun decode_chunks :: "encoding \<Rightarrow> decoder \<Rightarrow> nat list list \<Rightarrow> pystr list \<times> error option" where
  "decode_chunks enc self [] =
     (case decode enc self [] True of
        Inl e \<Rightarrow> ([], Some e)
      | Inr (output, self') \<Rightarrow> ([output], None))"
| "decode_chunks enc self (chunk # chunks) =
     (case decode enc self chunk False of
        Inl e \<Rightarrow> ([], Some e)
      | Inr (output, self') \<Rightarrow>
          (case decode_chunks enc self' chunks of
             (outputs, e) \<Rightarrow> (output # outputs, e)))"

definition decoded_chunks :: "encoding \<Rightarrow> bytes \<Rightarrow> pystr list \<times> error option" where
  "decoded_chunks enc content =
     decode_chunks enc \<lparr>first = True, buffer = [], pendingcr = False\<rparr>
       (chunks_of (map of_char content))"

text \<open>
  A read that wants a certain amount of text takes chunk after chunk until the text
  decoded is \<open>enough\<close> or the file ends; the chunks behind are not looked at.
\<close>

fun read_until :: "(pystr \<Rightarrow> bool) \<Rightarrow> pystr \<Rightarrow> pystr list \<times> error option \<Rightarrow> error + pystr" where
  "read_until enough got ([], None) = Inr got"
| "read_until enough got ([], Some e) = Inl e"
| "read_until enough got (output # outputs, e) =
     (if enough (got @ output) then Inr (got @ output)
      else read_until enough (got @ output) (outputs, e))"

text \<open>
  \<open>open(file_path, 'r', encoding=encoding)\<close> followed by reading the file to its end:
  the text of the file, or the exception raised (the file does not exist, or some chunk
  of it does not decode).
\<close>

definition open_text :: "filesystem \<Rightarrow> path \<Rightarrow> encoding \<Rightarrow> error + pystr" where
  "open_text fs file_path enc =
     (case fs file_path of
        None \<Rightarrow> Inl FileNotFoundError
      | Some content \<Rightarrow>
          (case decoded_chunks enc content of
             (outputs, Some e) \<Rightarrow> Inl e
           | (outputs, None) \<Rightarrow> Inr (concat outputs)))"

text \<open>\<open>file.readlines()\<close>: the lines of the text, each with its terminating \<open>\n\<close>.\<close>

fun readlines :: "pystr \<Rightarrow> pystr list" where
  "readlines [] = []"
| "readlines (c # cs) =
     (if c = 10 then [c] # readlines cs
      else (case readlines cs of [] \<Rightarrow> [[c]] | l # ls \<Rightarrow> (c # l) # ls))"

text \<open>The first line of a text, or \<open>''\<close>.\<close>

definition readline :: "pystr \<Rightarrow> pystr" where
  "readline text = (case readlines text of [] \<Rightarrow> [] | l # ls \<Rightarrow> l)"

text \<open>
  \<open>open(file_path, 'r', encoding=encoding)\<close> followed by \<open>file.read(count)\<close>: chunks are
  decoded until \<open>count\<close> characters are there or the file ends.
\<close>

definition open_read :: "filesystem \<Rightarrow> path \<Rightarrow> encoding \<Rightarrow> nat \<Rightarrow> error + pystr" where
  "open_read fs file_path enc count =
     (case fs file_path of
        None \<Rightarrow> Inl FileNotFoundError
      | Some content \<Rightarrow>
          (case read_until (\<lambda>got. count \<le> length got) [] (decoded_chunks enc content) of
             Inl e \<Rightarrow> Inl e
           | Inr got \<Rightarrow> Inr (take count got)))"

section \<open>The format classifier\<close>

datatype CsvFileTypes = UNKNOWN | CASH | OLD_VISA | GIRO | NEW_VISA

text \<open>
  \<^verbatim>\<open>
  def _read_header_line(file_path, encoding):
      with open(file_path, 'r', encoding=encoding) as file:
          header = file.readline()
          file.seek(0)
          return header
  \<close>
  \<open>file.readline()\<close> on the freshly opened file decodes chunks until a line end is
  there or the file ends, and returns the first line of what it has.
\<close>

definition read_header_line :: "filesystem \<Rightarrow> path \<Rightarrow> encoding \<Rightarrow> error + pystr" where
  "read_header_line fs file_path enc =
     (case fs file_path of
        None \<Rightarrow> Inl FileNotFoundError
      | Some content \<Rightarrow>
          (case read_until (\<lambda>got. 10 \<in> set got) [] (decoded_chunks enc content) of
             Inl e \<Rightarrow> Inl e
           | Inr got \<Rightarrow> Inr (readline got)))"

text \<open>
  \<^verbatim>\<open>
  def detect_csv_format(file_path):
      header = None
      try:
          header = _read_header_line(file_path, "utf-8-sig")
      except UnicodeDecodeError:
          header = _read_header_line(file_path, "iso-8859-1")
      if header is None:
          return CsvFileTypes.UNKNOWN
      if header.startswith("\"Kreditkarte:\""):
          return CsvFileTypes.OLD_VISA
      if header.startswith("\"Kontonummer:\""):
          return CsvFileTypes.CASH
      if header.startswith("\"Girokonto\""):
          return CsvFileTypes.GIRO
      if header.startswith("\"Karte\""):
          return CsvFileTypes.NEW_VISA
      return CsvFileTypes.UNKNOWN
  \<close>
  \<open>readline\<close> returns a string, so \<open>header\<close> is never \<open>None\<close> after the \<open>try\<close> statement
  and the test \<open>header is None\<close> never succeeds. Any exception other than
  \<open>UnicodeDecodeError\<close> leaves the function.
\<close>

definition detect_csv_format :: "filesystem \<Rightarrow> path \<Rightarrow> error + CsvFileTypes" where
  \<open>detect_csv_format fs file_path =
     (case (case read_header_line fs file_path utf_8_sig of
              Inl UnicodeDecodeError \<Rightarrow> read_header_line fs file_path iso_8859_1
            | r \<Rightarrow> r) of
        Inl e \<Rightarrow> Inl e
      | Inr header \<Rightarrow>
          Inr (if startswith header (str ''"Kreditkarte:"'') then OLD_VISA
               else if startswith header (str ''"Kontonummer:"'') then CASH
               else if startswith header (str ''"Girokonto"'') then GIRO
               else if startswith header (str ''"Karte"'') then NEW_VISA
               else UNKNOWN))\<close>

text \<open>
  The classifier as the specification words it: a table of detection signatures in
  priority order, and the format of the first signature that is a prefix of the
  header, \<open>UNKNOWN\<close> when there is none.
\<close>

definition detection_signatures :: "(pystr \<times> CsvFileTypes) list" where
  \<open>detection_signatures =
     [(str ''"Kreditkarte:"'', OLD_VISA), (str ''"Kontonummer:"'', CASH),
      (str ''"Girokonto"'', GIRO), (str ''"Karte"'', NEW_VISA)]\<close>

definition first_match :: "pystr \<Rightarrow> CsvFileTypes" where
  "first_match header =
     (case find (\<lambda>(sig, fmt). prefix sig header) detection_signatures of
        None \<Rightarrow> UNKNOWN
      | Some (sig, fmt) \<Rightarrow> fmt)"

section \<open>The transaction region extractor\<close>

text \<open>
  \<^verbatim>\<open>
  def find_transaction_lines(file):
      lines = file.readlines()
      i = 1
      for line in lines:
          if "Betrag" in line and "Wertstellung" in line:
              return lines[i:]
          i = i + 1
      raise ValueError("Can't convert CSV file without header line")
  \<close>
  The argument of the model is the list \<open>file.readlines()\<close> returns. The loop is
  \<open>find_transaction_loop\<close>: its second argument is the part of \<open>lines\<close> still to be
  visited and its third the counter \<open>i\<close>; the slice \<open>lines[i:]\<close> is \<open>drop i lines\<close>.
\<close>

definition is_header_line :: "pystr \<Rightarrow> bool" where
  "is_header_line line \<longleftrightarrow>
     contains (str ''Betrag'') line \<and> contains (str ''Wertstellung'') line"

fun find_transaction_loop :: "pystr list \<Rightarrow> pystr list \<Rightarrow> nat \<Rightarrow> error + pystr list" where
  "find_transaction_loop lines [] i =
     Inl (ValueError ''Can't convert CSV file without header line'')"
| "find_transaction_loop lines (line # rest) i =
     (if is_header_line line then Inr (drop i lines)
      else find_transaction_loop lines rest (i + 1))"

definition find_transaction_lines :: "pystr list \<Rightarrow> error + pystr list" where
  "find_transaction_lines lines = find_transaction_loop lines lines 1"

section \<open>Dates\<close>

text \<open>
  \<open>datetime.strptime\<close> turns its format into a regular expression and matches the
  string against it; the digits of \<open>%Y\<close> and \<open>%y\<close> (and the second digit of a day from 10
  to 29) are matched by \<open>\d\<close>, which accepts every Unicode decimal digit (category Nd),
  and \<open>int\<close> reads them. A decimal digit is one of ten consecutive code points; the
  table lists the code point of each zero (Unicode 14.0).
\<close>

definition decimal_zeros :: "nat list" where
  "decimal_zeros =
    [48, 1632, 1776, 1984, 2406, 2534, 2662, 2790, 2918, 3046, 3174, 3302, 3430, 3558,
     3664, 3792, 3872, 4160, 4240, 6112, 6160, 6470, 6608, 6784, 6800, 6992, 7088,
     7232, 7248, 42528, 43216, 43264, 43472, 43504, 43600, 44016, 65296, 66720, 68912,
     69734, 69872, 69942, 70096, 70384, 70736, 70864, 71248, 71360, 71472, 71904,
     72016, 72784, 73040, 73120, 92768, 92864, 93008, 120782, 120792, 120802, 120812,
     120822, 123200, 123632, 125264, 130032]"

definition digit_value :: "nat \<Rightarrow> nat option" where
  "digit_value c =
     (case find (\<lambda>z. z \<le> c \<and> c < z + 10) decimal_zeros of
        None \<Rightarrow> None
      | Some z \<Rightarrow> Some (c - z))"

text \<open>The character classes of the regular expressions: \<open>\d\<close>, a range, one character.\<close>

datatype char_class = Decimal | Range nat nat | Char nat

fun in_class :: "char_class \<Rightarrow> nat \<Rightarrow> bool" where
  "in_class Decimal c = (digit_value c \<noteq> None)"
| "in_class (Range lo hi) c = (lo \<le> c \<and> c \<le> hi)"
| "in_class (Char x) c = (c = x)"

text \<open>
  A sequence of classes matched at the start of a string: the matched text and the
  rest of the string.
\<close>

fun match_classes :: "char_class list \<Rightarrow> pystr \<Rightarrow> (pystr \<times> pystr) option" where
  "match_classes [] s = Some ([], s)"
| "match_classes (k # ks) [] = None"
| "match_classes (k # ks) (c # cs) =
     (if in_class k c
      then (case match_classes ks cs of None \<Rightarrow> None | Some (m, rest) \<Rightarrow> Some (c # m, rest))
      else None)"

text \<open>
  The directives the program uses and their regular expressions in \<open>_strptime.py\<close>, as
  lists of alternatives in the order the expression tries them:
  \<^verbatim>\<open>
  'd': r"(?P<d>3[0-1]|[1-2]\d|0[1-9]|[1-9]| [1-9])"
  'm': r"(?P<m>1[0-2]|0[1-9]|[1-9])"
  'y': r"(?P<y>\d\d)"
  'Y': r"(?P<Y>\d\d\d\d)"
  \<close>
\<close>

datatype directive = Day | Month | Year2 | Year4

fun directive_regex :: "directive \<Rightarrow> char_class list list" where
  "directive_regex Day =
     [[Char 51, Range 48 49], [Range 49 50, Decimal], [Char 48, Range 49 57],
      [Range 49 57], [Char 32, Range 49 57]]"
| "directive_regex Month = [[Char 49, Range 48 50], [Char 48, Range 49 57], [Range 49 57]]"
| "directive_regex Year2 = [[Decimal, Decimal]]"
| "directive_regex Year4 = [[Decimal, Decimal, Decimal, Decimal]]"

definition match_directive :: "directive \<Rightarrow> pystr \<Rightarrow> (pystr \<times> pystr) list" where
  "match_directive d s = List.map_filter (\<lambda>alternative. match_classes alternative s) (directive_regex d)"

text \<open>
  A format string, read into its parts: \<open>"%d.%m.%Y"\<close> is
  \<open>[Directive Day, Literal 46, Directive Month, Literal 46, Directive Year4]\<close>. A literal
  is a character other than \<open>%\<close> and whitespace and stands for itself.
\<close>

datatype format_item = Directive directive | Literal nat

text \<open>
  All the ways the expression of a format matches at the start of a string, in the
  order a backtracking matcher finds them: the text of each group and the rest of the
  string. \<open>re.match\<close> returns the first.
\<close>

fun match_items :: "format_item list \<Rightarrow> pystr \<Rightarrow> ((directive \<times> pystr) list \<times> pystr) list" where
  "match_items [] s = [([], s)]"
| "match_items (Literal x # items) s =
     (case s of [] \<Rightarrow> [] | c # cs \<Rightarrow> if c = x then match_items items cs else [])"
| "match_items (Directive d # items) s =
     concat (map (\<lambda>(m, rest). map (\<lambda>(groups, r). ((d, m) # groups, r)) (match_items items rest))
                 (match_directive d s))"

text \<open>
  \<open>int(s)\<close> on the text of a group: surrounding whitespace is dropped and the decimal
  digits are read; anything else is a \<open>ValueError\<close>.
\<close>

fun digits_value :: "nat \<Rightarrow> pystr \<Rightarrow> nat option" where
  "digits_value n [] = Some n"
| "digits_value n (c # cs) =
     (case digit_value c of None \<Rightarrow> None | Some v \<Rightarrow> digits_value (10 * n + v) cs)"

definition py_int :: "pystr \<Rightarrow> nat option" where
  "py_int s = (if strip s = [] then None else digits_value 0 (strip s))"

record datetime =
  year :: nat
  month :: nat
  day :: nat

definition is_leap :: "nat \<Rightarrow> bool" where
  "is_leap y \<longleftrightarrow> y mod 4 = 0 \<and> (y mod 100 \<noteq> 0 \<or> y mod 400 = 0)"

definition days_in_month :: "nat \<Rightarrow> nat \<Rightarrow> nat" where
  "days_in_month y m =
     (if m = 2 then (if is_leap y then 29 else 28)
      else if m = 4 \<or> m = 6 \<or> m = 9 \<or> m = 11 then 30 else 31)"

text \<open>
  The constructor of a date, which \<open>_strptime\<close> calls on the values it has read:
  years run from 1 to 9999.
\<close>

definition datetime_date :: "nat \<Rightarrow> nat \<Rightarrow> nat \<Rightarrow> error + datetime" where
  "datetime_date y m d =
     (if y < 1 \<or> 9999 < y then Inl (ValueError ''year is out of range'')
      else if m < 1 \<or> 12 < m then Inl (ValueError ''month must be in 1..12'')
      else if d < 1 \<or> days_in_month y m < d then Inl (ValueError ''day is out of range for month'')
      else Inr \<lparr>year = y, month = m, day = d\<rparr>)"

text \<open>
  \<open>datetime.strptime(data_string, format)\<close>, from \<open>_strptime.py\<close>:
  \<^verbatim>\<open>
  for index, arg in enumerate([data_string, format]):
      if not isinstance(arg, str):
          raise TypeError(msg.format(index, type(arg)))
  ...
  found = format_regex.match(data_string)
  if not found:
      raise ValueError("time data %r does not match format %r" % ...)
  if len(data_string) != found.end():
      raise ValueError("unconverted data remains: %s" % ...)
  iso_year = year = None
  month = day = 1
  ...
      if group_key == 'y':
          year = int(found_dict['y'])
          if year <= 68:
              year += 2000
          else:
              year += 1900
      elif group_key == 'Y':
          year = int(found_dict['Y'])
      elif group_key == 'm':
          month = int(found_dict['m'])
      ...
      elif group_key == 'd':
          day = int(found_dict['d'])
  ...
  if year is None: ... year = 1900
  ...
      julian = datetime_date(year, month, day).toordinal() - ...
  \<close>
\<close>

definition group_int :: "(directive \<times> pystr) list \<Rightarrow> directive \<Rightarrow> nat option" where
  "group_int found d = (case map_of found d of None \<Rightarrow> None | Some t \<Rightarrow> py_int t)"

definition strptime :: "pyval \<Rightarrow> format_item list \<Rightarrow> error + datetime" where
  "strptime data_string fmt =
     (case data_string of
        PStr s \<Rightarrow>
          (case match_items fmt s of
             [] \<Rightarrow> Inl (ValueError ''time data does not match format'')
           | (found, rest) # others \<Rightarrow>
               if rest \<noteq> [] then Inl (ValueError ''unconverted data remains'')
               else
                 (let y = (case group_int found Year4 of
                             Some v \<Rightarrow> v
                           | None \<Rightarrow>
                               (case group_int found Year2 of
                                  Some v \<Rightarrow> if v \<le> 68 then v + 2000 else v + 1900
                                | None \<Rightarrow> 1900));
                      m = (case group_int found Month of Some v \<Rightarrow> v | None \<Rightarrow> 1);
                      d = (case group_int found Day of Some v \<Rightarrow> v | None \<Rightarrow> 1)
                  in datetime_date y m d))
      | _ \<Rightarrow> Inl TypeError)"

text \<open>
  \<open>date.strftime(format)\<close> is the \<open>strftime\<close> of the C library. \<open>%d\<close> and \<open>%m\<close> are two
  digits. \<open>%Y\<close> is the year as a decimal number: glibc writes it without leading
  zeros, so that the year 999 is \<open>999\<close>; other C libraries write at least four digits,
  \<open>0999\<close>. The platform is a parameter of the model.
\<close>

datatype platform = Glibc | Zero_padding

function decimal :: "nat \<Rightarrow> pystr" where
  "decimal n = (if n < 10 then [48 + n] else decimal (n div 10) @ [48 + n mod 10])"
  by pat_completeness auto
termination
  by (relation "measure id") auto

declare decimal.simps [simp del]

definition zfill :: "nat \<Rightarrow> pystr \<Rightarrow> pystr" where
  "zfill width s = replicate (width - length s) 48 @ s"

fun format_directive :: "platform \<Rightarrow> directive \<Rightarrow> datetime \<Rightarrow> pystr" where
  "format_directive pf Day date = zfill 2 (decimal (day date))"
| "format_directive pf Month date = zfill 2 (decimal (month date))"
| "format_directive pf Year2 date = zfill 2 (decimal (year date mod 100))"
| "format_directive Glibc Year4 date = decimal (year date)"
| "format_directive Zero_padding Year4 date = zfill 4 (decimal (year date))"

fun strftime :: "platform \<Rightarrow> datetime \<Rightarrow> format_item list \<Rightarrow> pystr" where
  "strftime pf date [] = []"
| "strftime pf date (Literal x # items) = x # strftime pf date items"
| "strftime pf date (Directive d # items) = format_directive pf d date @ strftime pf date items"

text \<open>
  \<^verbatim>\<open>
  def convert_date(date_string):
      """Convert the date_string to dd-mm-YYYY format."""
      date = datetime.strptime(date_string, "%d.%m.%Y")
      return date.strftime('%d-%m-%Y')

  def convert_short_date(date_string):
      """Convert the date_string to dd-mm-YYYY format."""
      date = datetime.strptime(date_string, "%d.%m.%y")
      return date.strftime('%d-%m-%Y')
  \<close>
\<close>

definition convert_date :: "platform \<Rightarrow> pyval \<Rightarrow> error + pystr" where
  "convert_date pf date_string =
     (case strptime date_string
             [Directive Day, Literal 46, Directive Month, Literal 46, Directive Year4] of
        Inl e \<Rightarrow> Inl e
      | Inr date \<Rightarrow>
          Inr (strftime pf date
                 [Directive Day, Literal 45, Directive Month, Literal 45, Directive Year4]))"

definition convert_short_date :: "platform \<Rightarrow> pyval \<Rightarrow> error + pystr" where
  "convert_short_date pf date_string =
     (case strptime date_string
             [Directive Day, Literal 46, Directive Month, Literal 46, Directive Year2] of
        Inl e \<Rightarrow> Inl e
      | Inr date \<Rightarrow>
          Inr (strftime pf date
                 [Directive Day, Literal 45, Directive Month, Literal 45, Directive Year4]))"

text \<open>
  What the claims about dates speak of: an ASCII digit and its value, the number two
  and four digits write, and a date of the calendar.
\<close>

definition ascii_digit :: "nat \<Rightarrow> bool" where
  "ascii_digit c \<longleftrightarrow> 48 \<le> c \<and> c \<le> 57"

definition number2 :: "nat \<Rightarrow> nat \<Rightarrow> nat" where
  "number2 c1 c2 = 10 * (c1 - 48) + (c2 - 48)"

definition number4 :: "nat \<Rightarrow> nat \<Rightarrow> nat \<Rightarrow> nat \<Rightarrow> nat" where
  "number4 c1 c2 c3 c4 = 1000 * (c1 - 48) + 100 * (c2 - 48) + 10 * (c3 - 48) + (c4 - 48)"

definition valid_date :: "nat \<Rightarrow> nat \<Rightarrow> nat \<Rightarrow> bool" where
  "valid_date y m d \<longleftrightarrow> 1 \<le> y \<and> y \<le> 9999 \<and> 1 \<le> m \<and> m \<le> 12 \<and> 1 \<le> d \<and> d \<le> days_in_month y m"

section \<open>The CSV dialect and the reader\<close>

text \<open>
  \<^verbatim>\<open>
  class DKB(csv.Dialect):
      delimiter = ';'
      quotechar = '"'
      doublequote = True
      skipinitialspace = False
      lineterminator = '\n'
      quoting = csv.QUOTE_MINIMAL
  \<close>
  A dialect is modelled by the four attributes in which the dialects of this program
  differ as far as reading goes. \<open>quoting\<close> is \<open>QUOTE_MINIMAL\<close> in \<open>DKB\<close> and in every
  dialect \<open>csv.Sniffer\<close> returns, there is no escape character, and \<open>strict\<close> is false;
  the line terminator is not used for reading.
\<close>

record dialect =
  delimiter :: nat
  quotechar :: nat
  doublequote :: bool
  skipinitialspace :: bool

definition DKB :: dialect where
  "DKB = \<lparr>delimiter = 59, quotechar = 34, doublequote = True, skipinitialspace = False\<rparr>"

text \<open>
  The reader of the \<open>csv\<close> module (\<open>Modules/_csv.c\<close>) is a state machine that is fed the
  characters of each line and then an end-of-line mark, here \<open>None\<close>. The states for an
  escape character are left out.
\<close>

datatype parser_state =
  START_RECORD | START_FIELD | IN_FIELD | IN_QUOTED_FIELD | QUOTE_IN_QUOTED_FIELD | EAT_CRNL

text \<open>
  The reader's \<open>state\<close>, its list \<open>fields\<close> of the record so far (here \<open>fields_list\<close>) and
  the current \<open>field\<close>.
\<close>

record reader =
  state :: parser_state
  fields_list :: "pystr list"
  field :: pystr

definition field_limit :: nat where
  "field_limit = 131072"

definition parse_add_char :: "reader \<Rightarrow> nat \<Rightarrow> error + reader" where
  "parse_add_char self c =
     (if field_limit \<le> length (field self)
      then Inl (csv_Error ''field larger than field limit (131072)'')
      else Inr (self\<lparr>field := field self @ [c]\<rparr>))"

definition parse_save_field :: "reader \<Rightarrow> reader" where
  "parse_save_field self = self\<lparr>fields_list := fields_list self @ [field self], field := []\<rparr>"

definition is_newline :: "nat option \<Rightarrow> bool" where
  "is_newline c \<longleftrightarrow> c = Some 10 \<or> c = Some 13"

definition end_of_field :: "reader \<Rightarrow> nat option \<Rightarrow> reader" where
  "end_of_field self c =
     (parse_save_field self)\<lparr>state := (if c = None then START_RECORD else EAT_CRNL)\<rparr>"

definition add_char_then :: "parser_state \<Rightarrow> reader \<Rightarrow> nat option \<Rightarrow> error + reader" where
  "add_char_then s self c =
     (case parse_add_char self (the c) of
        Inl e \<Rightarrow> Inl e
      | Inr self' \<Rightarrow> Inr (self'\<lparr>state := s\<rparr>))"

fun start_field :: "dialect \<Rightarrow> reader \<Rightarrow> nat option \<Rightarrow> error + reader" where
  "start_field d self c =
     (if is_newline c \<or> c = None then Inr (end_of_field self c)
      else if c = Some (quotechar d) then Inr (self\<lparr>state := IN_QUOTED_FIELD\<rparr>)
      else if c = Some 32 \<and> skipinitialspace d then Inr self
      else if c = Some (delimiter d) then Inr (parse_save_field self)
      else add_char_then IN_FIELD self c)"

fun parse_process_char :: "dialect \<Rightarrow> reader \<Rightarrow> nat option \<Rightarrow> error + reader" where
  "parse_process_char d self c =
     (case state self of
        START_RECORD \<Rightarrow>
          if c = None then Inr self
          else if is_newline c then Inr (self\<lparr>state := EAT_CRNL\<rparr>)
          else start_field d (self\<lparr>state := START_FIELD\<rparr>) c
      | START_FIELD \<Rightarrow> start_field d self c
      | IN_FIELD \<Rightarrow>
          if is_newline c \<or> c = None then Inr (end_of_field self c)
          else if c = Some (delimiter d) then Inr ((parse_save_field self)\<lparr>state := START_FIELD\<rparr>)
          else add_char_then IN_FIELD self c
      | IN_QUOTED_FIELD \<Rightarrow>
          if c = None then Inr self
          else if c = Some (quotechar d) then
            Inr (self\<lparr>state := (if doublequote d then QUOTE_IN_QUOTED_FIELD else IN_FIELD)\<rparr>)
          else add_char_then IN_QUOTED_FIELD self c
      | QUOTE_IN_QUOTED_FIELD \<Rightarrow>
          if c = Some (quotechar d) then add_char_then IN_QUOTED_FIELD self c
          else if c = Some (delimiter d) then Inr ((parse_save_field self)\<lparr>state := START_FIELD\<rparr>)
          else if is_newline c \<or> c = None then Inr (end_of_field self c)
          else add_char_then IN_FIELD self c
      | EAT_CRNL \<Rightarrow>
          if is_newline c then Inr self
          else if c = None then Inr (self\<lparr>state := START_RECORD\<rparr>)
          else Inl (csv_Error ''new-line character seen in unquoted field''))"

text \<open>One line: its characters, then the end-of-line mark.\<close>

fun parse_line :: "dialect \<Rightarrow> reader \<Rightarrow> pystr \<Rightarrow> error + reader" where
  "parse_line d self [] = parse_process_char d self None"
| "parse_line d self (c # cs) =
     (case parse_process_char d self (Some c) of
        Inl e \<Rightarrow> Inl e
      | Inr self' \<Rightarrow> parse_line d self' cs)"

definition parse_reset :: reader where
  "parse_reset = \<lparr>state = START_RECORD, fields_list = [], field = []\<rparr>"

text \<open>
  The records \<open>csv.reader(lines, dialect)\<close> yields when iterated to the end, and the
  \<open>csv.Error\<close> that ends the iteration, if any. A record is complete when a line leaves
  the machine in \<open>START_RECORD\<close>; a quoted field runs on into the next line; at the end of
  the input an unfinished record is yielded as it is.
\<close>

fun csv_reader :: "dialect \<Rightarrow> reader \<Rightarrow> pystr list \<Rightarrow> pystr list list \<times> error option" where
  "csv_reader d self [] =
     (if field self \<noteq> [] \<or> state self = IN_QUOTED_FIELD
      then ([fields_list (parse_save_field self)], None)
      else ([], None))"
| "csv_reader d self (line # lines) =
     (case parse_line d self line of
        Inl e \<Rightarrow> ([], Some e)
      | Inr self' \<Rightarrow>
          if state self' = START_RECORD
          then (case csv_reader d parse_reset lines of
                  (records, e) \<Rightarrow> (fields_list self' # records, e))
          else csv_reader d self' lines)"

section \<open>Dictionaries and \<open>csv.DictReader\<close>\<close>

text \<open>
  A Python dictionary keeps its keys in insertion order, and storing under a key that
  is present replaces the value in place: an association list with \<open>AList.update\<close>.
\<close>

type_synonym dict = "(pystr \<times> pyval) list"

definition dict_of :: "(pystr \<times> pyval) list \<Rightarrow> dict" where
  "dict_of items = foldl (\<lambda>d (k, v). AList.update k v d) [] items"

text \<open>\<open>d[key]\<close> raises \<open>KeyError\<close> for a missing key.\<close>

definition getitem :: "dict \<Rightarrow> pystr \<Rightarrow> error + pyval" where
  "getitem d key = (case map_of d key of None \<Rightarrow> Inl KeyError | Some v \<Rightarrow> Inr v)"

text \<open>
  \<^verbatim>\<open>
  def __next__(self):
      ...
      row = next(self.reader)
      ...
      while row == []:
          row = next(self.reader)
      d = dict(zip(self.fieldnames, row))
      lf = len(self.fieldnames)
      lr = len(row)
      if lf < lr:
          d[self.restkey] = row[lf:]
      elif lf > lr:
          for key in self.fieldnames[lr:]:
              d[key] = self.restval
      return d
  \<close>
  with \<open>restkey = None\<close> and \<open>restval = None\<close>. The key \<open>None\<close> differs from every field
  name, so the surplus fields stored under it are kept beside the named cells.
\<close>

record source_record =
  cells :: dict
  surplus :: "pystr list option"

definition bind_row :: "pystr list \<Rightarrow> pystr list \<Rightarrow> source_record" where
  "bind_row fieldnames row =
     (let d = dict_of (zip fieldnames (map PStr row));
          lf = length fieldnames;
          lr = length row
      in if lf < lr then \<lparr>cells = d, surplus = Some (drop lf row)\<rparr>
         else if lr < lf
         then \<lparr>cells = foldl (\<lambda>d key. AList.update key PNone d) d (drop lr fieldnames),
               surplus = None\<rparr>
         else \<lparr>cells = d, surplus = None\<rparr>)"

text \<open>
  The rows \<open>csv.DictReader(lines, dialect=dialect, fieldnames=fieldnames)\<close> yields, and
  the \<open>csv.Error\<close> that ends the iteration, if any.
\<close>

definition DictReader :: "pystr list \<Rightarrow> dialect \<Rightarrow> pystr list \<Rightarrow> source_record list \<times> error option" where
  "DictReader lines d fieldnames =
     (case csv_reader d parse_reset lines of
        (records, e) \<Rightarrow> (map (bind_row fieldnames) (filter (\<lambda>row. row \<noteq> []) records), e))"

section \<open>The field names\<close>

definition cash_field_names :: "pystr list" where
  "cash_field_names =
     [str ''buchungstag'', str ''wertstellung'', str ''buchungstext'', str ''beguenstigter'',
      str ''verwendungszweck'', str ''kontonummer'', str ''blz'', str ''betrag'',
      str ''glaeubigerID'', str ''mandatsreferenz'', str ''kundenreferenz'']"

definition old_visa_field_names :: "pystr list" where
  "old_visa_field_names =
     [str ''abgerechnet'', str ''wertstellung'', str ''belegdatum'', str ''beschreibung'',
      str ''betrag'', str ''urspruenglicherBetrag'']"

definition new_visa_field_names :: "pystr list" where
  "new_visa_field_names =
     [str ''belegdatum'', str ''wertstellung'', str ''status'', str ''beschreibung'',
      str ''umsatztyp'', str ''betrag'', str ''fremdwaehrungsbetrag'']"

text \<open>The letter \<open>a\<close> with diaeresis in two of the names is the code point 228.\<close>

definition zahlungsempfaenger_in :: pystr where
  "zahlungsempfaenger_in = str ''zahlungsempf'' @ [228] @ str ''nger*in''"

definition giro_field_names :: "pystr list" where
  "giro_field_names =
     [str ''buchungsdatum'', str ''wertstellung'', str ''status'', str ''zahlungspflichtige*r'',
      zahlungsempfaenger_in, str ''verwendungszweck'', str ''umsatztyp'', str ''IBAN'',
      str ''betrag'', str ''gl'' @ [228] @ str ''ubiger-id'', str ''mandatsreferenz'',
      str ''kundenreferenz'']"

definition homebank_field_names :: "pystr list" where
  "homebank_field_names =
     [str ''date'', str ''paymode'', str ''info'', str ''payee'', str ''memo'', str ''amount'',
      str ''category'', str ''tags'']"

section \<open>Writing a row\<close>

text \<open>
  \<^verbatim>\<open>
  def _dict_to_list(self, rowdict):
      if self.extrasaction == "raise":
          wrong_fields = rowdict.keys() - self.fieldnames
          if wrong_fields:
              raise ValueError("dict contains fields not in fieldnames: " + ...)
      return (rowdict.get(key, self.restval) for key in self.fieldnames)

  def writerow(self, rowdict):
      return self.writer.writerow(self._dict_to_list(rowdict))
  \<close>
  with \<open>restval = ""\<close>. The writer of the \<open>csv\<close> module writes \<open>None\<close> as the empty string,
  a string as it is and any other value as \<open>str\<close> gives it. A written row is modelled as
  the list of these field texts; how the writer joins and quotes them is not.
\<close>

definition dict_to_list :: "pystr list \<Rightarrow> dict \<Rightarrow> error + pyval list" where
  "dict_to_list fieldnames rowdict =
     (if list_ex (\<lambda>key. key \<notin> set fieldnames) (map fst rowdict)
      then Inl (ValueError ''dict contains fields not in fieldnames'')
      else Inr (map (\<lambda>key. case map_of rowdict key of None \<Rightarrow> PStr [] | Some v \<Rightarrow> v) fieldnames))"

definition int_repr :: "int \<Rightarrow> pystr" where
  "int_repr n = (if n < 0 then 45 # decimal (nat (- n)) else decimal (nat n))"

fun field_text :: "pyval \<Rightarrow> pystr" where
  "field_text PNone = []"
| "field_text (PStr s) = s"
| "field_text (PInt n) = int_repr n"

definition writerow :: "pystr list \<Rightarrow> dict \<Rightarrow> error + pystr list" where
  "writerow fieldnames rowdict =
     (case dict_to_list fieldnames rowdict of
        Inl e \<Rightarrow> Inl e
      | Inr vals \<Rightarrow> Inr (map field_text vals))"

section \<open>The projectors\<close>

text \<open>Evaluation in sequence: the first exception ends it.\<close>

definition and_then :: "error + 'a \<Rightarrow> ('a \<Rightarrow> error + 'b) \<Rightarrow> error + 'b" where
  "and_then r f = (case r of Inl e \<Rightarrow> Inl e | Inr x \<Rightarrow> f x)"

text \<open>
  The dictionary each converter passes to \<open>writer.writerow\<close> for a row; its values are
  evaluated in the order of the dictionary display.
  \<^verbatim>\<open>
  {
      'date': convert_date(row["buchungstag"]),
      'paymode': 8,
      'info': None,
      'payee': row["beguenstigter"],
      'memo': row["verwendungszweck"],
      'amount': row["betrag"],
      'category': None,
      'tags': None
  }
  \<close>
\<close>

definition cash_row :: "platform \<Rightarrow> source_record \<Rightarrow> error + dict" where
  "cash_row pf row =
     and_then (getitem (cells row) (str ''buchungstag'')) (\<lambda>buchungstag.
     and_then (convert_date pf buchungstag) (\<lambda>date.
     and_then (getitem (cells row) (str ''beguenstigter'')) (\<lambda>payee.
     and_then (getitem (cells row) (str ''verwendungszweck'')) (\<lambda>memo.
     and_then (getitem (cells row) (str ''betrag'')) (\<lambda>amount.
     Inr (dict_of
       [(str ''date'', PStr date), (str ''paymode'', PInt 8), (str ''info'', PNone),
        (str ''payee'', payee), (str ''memo'', memo), (str ''amount'', amount),
        (str ''category'', PNone), (str ''tags'', PNone)]))))))"

text \<open>
  \<^verbatim>\<open>
  {
      'date': convert_date(row["wertstellung"]),
      'paymode': 1,
      'info': None,
      'payee': None,
      'memo': row["beschreibung"],
      'amount': row["betrag"],
      'category': None,
      'tags': None
  }
  \<close>
\<close>

definition old_visa_row :: "platform \<Rightarrow> source_record \<Rightarrow> error + dict" where
  "old_visa_row pf row =
     and_then (getitem (cells row) (str ''wertstellung'')) (\<lambda>wertstellung.
     and_then (convert_date pf wertstellung) (\<lambda>date.
     and_then (getitem (cells row) (str ''beschreibung'')) (\<lambda>memo.
     and_then (getitem (cells row) (str ''betrag'')) (\<lambda>amount.
     Inr (dict_of
       [(str ''date'', PStr date), (str ''paymode'', PInt 1), (str ''info'', PNone),
        (str ''payee'', PNone), (str ''memo'', memo), (str ''amount'', amount),
        (str ''category'', PNone), (str ''tags'', PNone)])))))"

text \<open>
  \<^verbatim>\<open>
  {
      'date': convert_short_date(row["wertstellung"]),
      'paymode': 1,
      'info': None,
      'payee': None,
      'memo': row["beschreibung"],
      'amount': strip_currency(row["betrag"]),
      'category': None,
      'tags': None
  }
  \<close>
\<close>

definition new_visa_row :: "platform \<Rightarrow> source_record \<Rightarrow> error + dict" where
  "new_visa_row pf row =
     and_then (getitem (cells row) (str ''wertstellung'')) (\<lambda>wertstellung.
     and_then (convert_short_date pf wertstellung) (\<lambda>date.
     and_then (getitem (cells row) (str ''beschreibung'')) (\<lambda>memo.
     and_then (getitem (cells row) (str ''betrag'')) (\<lambda>betrag.
     and_then (strip_currency betrag) (\<lambda>amount.
     Inr (dict_of
       [(str ''date'', PStr date), (str ''paymode'', PInt 1), (str ''info'', PNone),
        (str ''payee'', PNone), (str ''memo'', memo), (str ''amount'', PStr amount),
        (str ''category'', PNone), (str ''tags'', PNone)]))))))"

text \<open>
  \<^verbatim>\<open>
  {
      'date': convert_short_date(row["buchungsdatum"]),
      'paymode': 8,
      'info': None,
      'payee': f"{row['zahlungsempfaenger*in']} {row['IBAN']}",
      'memo': row["verwendungszweck"],
      'amount': strip_currency(row["betrag"]),
      'category': None,
      'tags': None
  }
  \<close>
  (the source writes the first key of the payee with the letter 228). A replacement
  field of an f-string formats \<open>None\<close> as the text \<open>None\<close>.
\<close>

fun format_value :: "pyval \<Rightarrow> pystr" where
  "format_value PNone = str ''None''"
| "format_value (PStr s) = s"
| "format_value (PInt n) = int_repr n"

definition giro_row :: "platform \<Rightarrow> source_record \<Rightarrow> error + dict" where
  "giro_row pf row =
     and_then (getitem (cells row) (str ''buchungsdatum'')) (\<lambda>buchungsdatum.
     and_then (convert_short_date pf buchungsdatum) (\<lambda>date.
     and_then (getitem (cells row) zahlungsempfaenger_in) (\<lambda>empfaenger.
     and_then (getitem (cells row) (str ''IBAN'')) (\<lambda>iban.
     and_then (getitem (cells row) (str ''verwendungszweck'')) (\<lambda>memo.
     and_then (getitem (cells row) (str ''betrag'')) (\<lambda>betrag.
     and_then (strip_currency betrag) (\<lambda>amount.
     Inr (dict_of
       [(str ''date'', PStr date), (str ''paymode'', PInt 8), (str ''info'', PNone),
        (str ''payee'', PStr (format_value empfaenger @ [32] @ format_value iban)),
        (str ''memo'', memo), (str ''amount'', PStr amount),
        (str ''category'', PNone), (str ''tags'', PNone)]))))))))"

section \<open>The converters\<close>

text \<open>
  What a run depends on besides its arguments: the files, the result of
  \<open>csv.Sniffer().sniff\<close> on a sample (a dialect, or \<open>csv.Error\<close> when it finds no
  delimiter), and the C library behind \<open>strftime\<close>.
\<close>

record env =
  files :: filesystem
  sniff :: "pystr \<Rightarrow> error + dialect"
  libc :: platform

text \<open>
  \<^verbatim>\<open>
  def _open_csv(file_path, field_names, encoding):
      with open(file_path, 'r', encoding=encoding) as file:
          dialect = csv.Sniffer().sniff(file.read(1024))
          file.seek(0)
          return csv.DictReader(find_transaction_lines(file), dialect=dialect,
                                fieldnames=field_names)
  \<close>
  The sample is read first, from as many chunks of the file as hold 1024 characters,
  and sniffed; only then is the file read again from its start, to its end. The lines
  are read and the header is searched when \<open>_open_csv\<close> is called; the rows are
  parsed later, as the caller iterates over the reader.
\<close>

definition open_csv ::
  "env \<Rightarrow> path \<Rightarrow> pystr list \<Rightarrow> encoding \<Rightarrow> error + (source_record list \<times> error option)" where
  "open_csv e file_path field_names enc =
     and_then (open_read (files e) file_path enc 1024) (\<lambda>sample.
     and_then (sniff e sample) (\<lambda>dialect.
     and_then (open_text (files e) file_path enc) (\<lambda>file.
     and_then (find_transaction_lines (readlines file)) (\<lambda>lines.
     Inr (DictReader lines dialect field_names)))))"

text \<open>
  \<^verbatim>\<open>
  for row in reader:
      writer.writerow({ ... })
  \<close>
  with \<open>writer = csv.DictWriter(outfile, dialect='dkb', fieldnames=homebank_field_names)\<close>:
  the rows written so far, and the exception that ended the loop, if any.
\<close>

fun write_rows ::
  "(source_record \<Rightarrow> error + dict) \<Rightarrow> source_record list \<Rightarrow> pystr list list \<Rightarrow>
   pystr list list \<times> error option" where
  "write_rows rowdict [] out = (out, None)"
| "write_rows rowdict (row # rows) out =
     (case and_then (rowdict row) (writerow homebank_field_names) of
        Inl e \<Rightarrow> (out, Some e)
      | Inr line \<Rightarrow> write_rows rowdict rows (out @ [line]))"

text \<open>
  The outcome of a converter: the output file and the rows written to it, if the file
  was opened, and the exception that left the converter, if any. The four converters
  have the same body but for the field names, the encoding and the dictionary:
  \<^verbatim>\<open>
  reader = _open_csv(file_path, cash_field_names, 'iso-8859-1')
  with open(output_file, 'w', encoding='utf-8') as outfile:
      writer = csv.DictWriter(outfile, dialect='dkb', fieldnames=homebank_field_names)
      for row in reader:
          writer.writerow({ ... })
  \<close>
  Opening the output file creates it, or empties it; an exception in the loop closes
  it with the rows written before. After the last row the reader's own exception, if
  it met one, leaves the loop.
\<close>

record outcome =
  written :: "(path \<times> pystr list list) option"
  raised :: "error option"

definition convert_with ::
  "(source_record \<Rightarrow> error + dict) \<Rightarrow> env \<Rightarrow> path \<Rightarrow> pystr list \<Rightarrow> encoding \<Rightarrow> path \<Rightarrow> outcome" where
  "convert_with rowdict e file_path field_names enc output_file =
     (case open_csv e file_path field_names enc of
        Inl err \<Rightarrow> \<lparr>written = None, raised = Some err\<rparr>
      | Inr (rows, reader_error) \<Rightarrow>
          (case write_rows rowdict rows [] of
             (out, Some err) \<Rightarrow> \<lparr>written = Some (output_file, out), raised = Some err\<rparr>
           | (out, None) \<Rightarrow> \<lparr>written = Some (output_file, out), raised = reader_error\<rparr>))"

definition convert_cash :: "env \<Rightarrow> path \<Rightarrow> path \<Rightarrow> outcome" where
  "convert_cash e file_path output_file =
     convert_with (cash_row (libc e)) e file_path cash_field_names iso_8859_1 output_file"

definition convert_old_visa :: "env \<Rightarrow> path \<Rightarrow> path \<Rightarrow> outcome" where
  "convert_old_visa e file_path output_file =
     convert_with (old_visa_row (libc e)) e file_path old_visa_field_names iso_8859_1 output_file"

definition convert_new_visa :: "env \<Rightarrow> path \<Rightarrow> path \<Rightarrow> outcome" where
  "convert_new_visa e file_path output_file =
     convert_with (new_visa_row (libc e)) e file_path new_visa_field_names utf_8_sig output_file"

definition convert_giro :: "env \<Rightarrow> path \<Rightarrow> path \<Rightarrow> outcome" where
  "convert_giro e file_path output_file =
     convert_with (giro_row (libc e)) e file_path giro_field_names utf_8_sig output_file"

section \<open>The entry point\<close>

text \<open>The parsed command line: \<open>filename\<close>, \<open>-o/--output-file\<close> and \<open>-d/--debug\<close>.\<close>

record args =
  filename :: path
  output_file :: "pystr option"
  debug :: bool

text \<open>\<open>args.output_file or default\<close>: \<open>None\<close> and the empty string are false.\<close>

definition or_default :: "pystr option \<Rightarrow> pystr \<Rightarrow> pystr" where
  "or_default v other = (case v of None \<Rightarrow> other | Some s \<Rightarrow> if s = [] then other else s)"

fun format_name :: "CsvFileTypes \<Rightarrow> pystr" where
  "format_name UNKNOWN = str ''unknown''"
| "format_name CASH = str ''cash''"
| "format_name OLD_VISA = str ''old visa''"
| "format_name GIRO = str ''giro''"
| "format_name NEW_VISA = str ''new visa''"

text \<open>
  A run of \<open>main\<close>: the outcome of the conversion and the lines printed on standard
  output and on standard error.
  \<^verbatim>\<open>
  def main():
      args = setup_parser()
      csv_format = detect_csv_format(args.filename)
      print(f"Looks like we're trying to convert a {csv_format.value} CSV file") if args.debug else None
      if csv_format == CsvFileTypes.OLD_VISA:
          output = args.output_file or "visaHomebank.csv"
          convert_old_visa(args.filename, output)
          print(f"DKB Visa file converted. Output file: {output}") if args.debug else None
      elif csv_format == CsvFileTypes.CASH:
          output = args.output_file or "cashHomebank.csv"
          convert_cash(args.filename, output)
          print(f"DKB Cash file converted. Output file: {output}") if args.debug else None
      elif csv_format == CsvFileTypes.GIRO:
          output = args.output_file or "giroHomebank.csv"
          convert_giro(args.filename, output)
          print(f"DKB Giro file converted. Output file: {output}") if args.debug else None
      elif csv_format == CsvFileTypes.NEW_VISA:
          output = args.output_file or "visaHomebank.csv"
          convert_new_visa(args.filename, output)
          print(f"DKB Giro file converted. Output file: {output}") if args.debug else None
      elif csv_format == CsvFileTypes.UNKNOWN:
          print(f"Could not detect CSV file type. Are you sure this is a legitimate file?", file=sys.stderr)
  \<close>
\<close>

record run = outcome +
  stdout :: "pystr list"
  stderr :: "pystr list"

definition converted :: "bool \<Rightarrow> pystr list \<Rightarrow> pystr \<Rightarrow> outcome \<Rightarrow> run" where
  "converted dbg printed message r =
     \<lparr>written = written r, raised = raised r,
      stdout = printed @ (if raised r = None \<and> dbg then [message] else []),
      stderr = []\<rparr>"

definition main :: "env \<Rightarrow> args \<Rightarrow> run" where
  "main e a =
     (case detect_csv_format (files e) (filename a) of
        Inl err \<Rightarrow> \<lparr>written = None, raised = Some err, stdout = [], stderr = []\<rparr>
      | Inr csv_format \<Rightarrow>
          (let printed =
                 (if debug a
                  then [str ''Looks like we're trying to convert a '' @ format_name csv_format @
                        str '' CSV file'']
                  else [])
           in case csv_format of
                OLD_VISA \<Rightarrow>
                  (let output = or_default (output_file a) (str ''visaHomebank.csv'')
                   in converted (debug a) printed
                        (str ''DKB Visa file converted. Output file: '' @ output)
                        (convert_old_visa e (filename a) output))
              | CASH \<Rightarrow>
                  (let output = or_default (output_file a) (str ''cashHomebank.csv'')
                   in converted (debug a) printed
                        (str ''DKB Cash file converted. Output file: '' @ output)
                        (convert_cash e (filename a) output))
              | GIRO \<Rightarrow>
                  (let output = or_default (output_file a) (str ''giroHomebank.csv'')
                   in converted (debug a) printed
                        (str ''DKB Giro file converted. Output file: '' @ output)
                        (convert_giro e (filename a) output))
              | NEW_VISA \<Rightarrow>
                  (let output = or_default (output_file a) (str ''visaHomebank.csv'')
                   in converted (debug a) printed
                        (str ''DKB Giro file converted. Output file: '' @ output)
                        (convert_new_visa e (filename a) output))
              | UNKNOWN \<Rightarrow>
                  \<lparr>written = None, raised = None, stdout = printed,
                   stderr = [str ''Could not detect CSV file type. Are you sure this is a legitimate file?'']\<rparr>))"

text \<open>
  \<^verbatim>\<open>
  if __name__ == '__main__':
      main()
  \<close>
  The script never calls \<open>sys.exit\<close>: the interpreter ends with status 0 when \<open>main\<close>
  returns and, after an exception that nothing caught, writes the traceback to
  standard error and ends with status 1.
\<close>

definition exit_status :: "run \<Rightarrow> nat" where
  "exit_status r = (if raised r = None then 0 else 1)"

section \<open>What the claims speak of\<close>

text \<open>
  The characters an amount is written with: the ASCII digits, \<open>.\<close>, \<open>,\<close> and \<open>-\<close>.
\<close>

definition amount_char :: "nat \<Rightarrow> bool" where
  "amount_char c \<longleftrightarrow> (48 \<le> c \<and> c \<le> 57) \<or> c = 46 \<or> c = 44 \<or> c = 45"

text \<open>
  The dictionaries the four converters write: the eight keys in the order of
  \<open>homebank_field_names\<close>, with \<open>None\<close> under \<open>info\<close>, \<open>category\<close> and \<open>tags\<close>.
\<close>

definition target_dict :: "dict \<Rightarrow> bool" where
  "target_dict rowdict \<longleftrightarrow>
     (\<exists>v1 v2 v4 v5 v6. rowdict =
        [(str ''date'', v1), (str ''paymode'', v2), (str ''info'', PNone), (str ''payee'', v4),
         (str ''memo'', v5), (str ''amount'', v6), (str ''category'', PNone), (str ''tags'', PNone)])"

text \<open>
  An export of a cash account with one transaction, the dialect \<open>csv.Sniffer\<close> finds for
  it (it sees no doubled quote in the sample) and an environment that holds the file.
\<close>

definition cash_example :: bytes where
  \<open>cash_example =
     ''"Kontonummer:";"DE12 / Girokonto";'' @ [CHR 0x0A] @
     ''"Buchungstag";"Wertstellung";"Buchungstext";"Beguenstigter";"Verwendungszweck";"Kontonummer";"BLZ";"Betrag (EUR)";"Glaeubiger-ID";"Mandatsreferenz";"Kundenreferenz";'' @ [CHR 0x0A] @
     ''"01.03.2023";"02.03.2023";"Lastschrift";"ACME GmbH";"Invoice 123";"DE00";"BANKXXX";"-42,50";"";"";"";'' @ [CHR 0x0A]\<close>

definition sniffed :: dialect where
  "sniffed = \<lparr>delimiter = 59, quotechar = 34, doublequote = False, skipinitialspace = False\<rparr>"

definition cash_env :: env where
  "cash_env = \<lparr>files = [str ''in.csv'' \<mapsto> cash_example], sniff = (\<lambda>sample. Inr sniffed), libc = Glibc\<rparr>"



definition good_record :: "pystr list" where
  "good_record =
     [str ''01.03.2023'', str ''02.03.2023'', str ''Lastschrift'', str ''ACME GmbH'',
      str ''Invoice 123'', str ''DE00'', str ''BANKXXX'', str ''-42,50'', [], [], [], []]"


text \<open>
  An export whose fields are separated by commas, the dialect \<open>csv.Sniffer\<close> finds for
  it and an environment that holds the file.
\<close>

definition comma_example :: bytes where
  \<open>comma_example =
     ''"Kontonummer:","DE12 / Girokonto"'' @ [CHR 0x0A] @
     ''"Buchungstag","Wertstellung","Betrag (EUR)"'' @ [CHR 0x0A] @
     ''"01.03.2023;02.03.2023","ACME; GmbH","-42,50"'' @ [CHR 0x0A]\<close>

definition comma_sniffed :: dialect where
  "comma_sniffed = \<lparr>delimiter = 44, quotechar = 34, doublequote = False, skipinitialspace = False\<rparr>"

definition comma_env :: env where
  "comma_env =
     \<lparr>files = [str ''in.csv'' \<mapsto> comma_example], sniff = (\<lambda>sample. Inr comma_sniffed),
      libc = Glibc\<rparr>"

section \<open>Properties of the extractor\<close>

lemma contains_iff_sublist: "contains sub s \<longleftrightarrow> sublist sub s"
  by (induction s) (auto simp: sublist_Cons_right)

lemma find_transaction_loop_header:
  assumes "\<forall>l \<in> set pre. \<not> is_header_line l" and "is_header_line h"
    and "i = Suc (length seen)"
  shows "find_transaction_loop (seen @ pre @ h # data) (pre @ h # data) i = Inr data"
  using assms
proof (induction pre arbitrary: seen i)
  case Nil
  then show ?case by simp
next
  case (Cons l pre)
  have "find_transaction_loop ((seen @ [l]) @ pre @ h # data) (pre @ h # data) (Suc i) = Inr data"
    using Cons.prems by (intro Cons.IH) auto
  with Cons.prems show ?case by simp
qed

lemma find_transaction_loop_no_header:
  "\<forall>l \<in> set rest. \<not> is_header_line l \<Longrightarrow>
   find_transaction_loop lines rest i =
     Inl (ValueError ''Can't convert CSV file without header line'')"
  by (induction rest arbitrary: i) auto

text \<open>
  Claim C2. Whenever some line contains both \<open>Betrag\<close> and \<open>Wertstellung\<close>, the lines
  split into a preamble without such a line, the first such line (the header) and the
  remaining lines, and \<open>find_transaction_lines\<close> returns exactly the remaining lines, in
  their order: with \<open>N\<close> preamble lines, one header line and \<open>M\<close> data lines the result has
  \<open>M\<close> elements and is the slice of the input strictly after position \<open>N\<close>.
\<close>

theorem find_transaction_lines_after_header:
  assumes "\<exists>l \<in> set lines. is_header_line l"
  shows "\<exists>preamble header data.
           lines = preamble @ header # data \<and>
           (\<forall>l \<in> set preamble. \<not> is_header_line l) \<and> is_header_line header \<and>
           find_transaction_lines lines = Inr data \<and>
           data = drop (Suc (length preamble)) lines \<and>
           length data = length lines - length preamble - 1"
proof -
  from split_list_first_prop [OF assms] obtain preamble header data where split:
    "lines = preamble @ header # data" "is_header_line header"
    "\<forall>l \<in> set preamble. \<not> is_header_line l"
    by blast
  have "find_transaction_loop ([] @ preamble @ header # data) (preamble @ header # data) 1
          = Inr data"
    using split by (intro find_transaction_loop_header) auto
  then have "find_transaction_lines lines = Inr data"
    by (simp add: find_transaction_lines_def split)
  with split show ?thesis by auto
qed

theorem find_transaction_lines_after_header_witness:
  \<open>find_transaction_lines
     [str ''"Kontonummer:";"DE00 / Girokonto";'', str '''',
      str ''"Buchungstag";"Wertstellung";"Betrag (EUR)";'',
      str ''"01.03.2023";"02.03.2023";"-42,50";'',
      str ''"03.03.2023";"04.03.2023";"10,00";'']
   = Inr [str ''"01.03.2023";"02.03.2023";"-42,50";'',
          str ''"03.03.2023";"04.03.2023";"10,00";'']\<close>
proof -
  let ?h = \<open>str ''"Buchungstag";"Wertstellung";"Betrag (EUR)";''\<close>
  let ?ls = \<open>[str ''"Kontonummer:";"DE00 / Girokonto";'', str '''', ?h,
      str ''"01.03.2023";"02.03.2023";"-42,50";'',
      str ''"03.03.2023";"04.03.2023";"10,00";'']\<close>
  have h: "is_header_line ?h"
    by code_simp
  have "\<exists>l \<in> set ?ls. is_header_line l"
    using h by simp
  from find_transaction_lines_after_header [OF this]
  obtain data where run: "find_transaction_lines ?ls = Inr data"
    by (elim exE conjE)
  have "find_transaction_lines ?ls = Inr (drop 3 ?ls)"
    by code_simp
  with run show ?thesis by simp
qed

section \<open>Properties of currency stripping\<close>

lemma replace_single: "replace s [e] [] = filter (\<lambda>c. c \<noteq> e) s"
  by (induction s) auto

lemma lstrip_id: "s = [] \<or> \<not> isspace (hd s) \<Longrightarrow> lstrip s = s"
  by (cases s) (auto simp: lstrip_def)

lemma lstrip_head: "lstrip s = [] \<or> \<not> isspace (hd (lstrip s))"
  unfolding lstrip_def by (metis hd_dropWhile)

lemma rstrip_last: "rstrip s = [] \<or> \<not> isspace (last (rstrip s))"
  unfolding rstrip_def by (metis hd_dropWhile last_rev rev_is_Nil_conv)

lemma rstrip_id: "s = [] \<or> \<not> isspace (last s) \<Longrightarrow> rstrip s = s"
  by (cases s rule: rev_cases) (auto simp: rstrip_def)

lemma rstrip_decomp: "s = rstrip s @ rev (takeWhile isspace (rev s))"
  by (simp add: rstrip_def flip: rev_append)

lemma rstrip_Nil: "rstrip [] = []"
  by (simp add: rstrip_def)

lemma rstrip_head: "rstrip s \<noteq> [] \<Longrightarrow> hd (rstrip s) = hd s"
  by (metis rstrip_decomp hd_append2)

lemma strip_idem: "strip (strip s) = strip s"
proof -
  let ?t = "lstrip s"
  have "rstrip ?t = [] \<or> \<not> isspace (hd (rstrip ?t))"
    using lstrip_head [of s] rstrip_head [of ?t] by (cases "?t = []") (auto simp: rstrip_Nil)
  then have "lstrip (rstrip ?t) = rstrip ?t" by (rule lstrip_id)
  moreover have "rstrip (rstrip ?t) = rstrip ?t"
    using rstrip_last by (intro rstrip_id)
  ultimately show ?thesis by (simp add: strip_def)
qed

lemma strip_decomp:
  "s = takeWhile isspace s @ strip s @ rev (takeWhile isspace (rev (lstrip s)))"
proof -
  have "s = takeWhile isspace s @ lstrip s" by (simp add: lstrip_def)
  also have "lstrip s = rstrip (lstrip s) @ rev (takeWhile isspace (rev (lstrip s)))"
    by (rule rstrip_decomp)
  finally show ?thesis by (simp add: strip_def)
qed

lemma filter_strip:
  assumes "\<And>c. P c \<Longrightarrow> \<not> isspace c"
  shows "filter P (strip s) = filter P s"
proof -
  have a: "filter P (takeWhile isspace s) = []" for s
    using assms by (auto simp: filter_empty_conv dest: set_takeWhileD)
  have "filter P s = filter P (takeWhile isspace s @ strip s @ rev (takeWhile isspace (rev (lstrip s))))"
    using strip_decomp [of s] by simp
  then show ?thesis by (simp add: a flip: rev_filter)
qed


lemma set_strip: "set (strip s) \<subseteq> set s"
proof -
  have "set s = set (takeWhile isspace s @ strip s @ rev (takeWhile isspace (rev (lstrip s))))"
    using strip_decomp [of s] by simp
  then show ?thesis by auto
qed

lemma amount_char_not_space: "amount_char c \<Longrightarrow> \<not> isspace c"
  by (auto simp: amount_char_def isspace_def)

text \<open>
  Claim C5. On every string \<open>s\<close>, \<open>strip_currency\<close> returns a string \<open>t\<close> on which it is
  the identity (idempotence); \<open>t\<close> has the same digits, \<open>.\<close>, \<open>,\<close> and \<open>-\<close> as \<open>s\<close>, in
  the same order (none is removed); and \<open>s\<close> without its Euro signs is \<open>t\<close> between a
  leading and a trailing run of whitespace, so nothing but Euro signs and the
  surrounding whitespace is removed.
\<close>

theorem strip_currency_idempotent_conservative:
  "\<exists>t lead trail.
     strip_currency (PStr s) = Inr t \<and> strip_currency (PStr t) = Inr t \<and>
     filter amount_char t = filter amount_char s \<and>
     filter (\<lambda>c. c \<noteq> 8364) s = lead @ t @ trail \<and>
     list_all isspace lead \<and> list_all isspace trail"
proof -
  let ?u = "filter (\<lambda>c. c \<noteq> 8364) s"
  let ?t = "strip ?u"
  let ?lead = "takeWhile isspace ?u"
  let ?trail = "rev (takeWhile isspace (rev (lstrip ?u)))"
  have run: "strip_currency (PStr s) = Inr ?t"
    by (simp add: strip_currency_def euro_sign_def replace_single)
  have "set ?t \<subseteq> set ?u" by (rule set_strip)
  then have "filter (\<lambda>c. c \<noteq> 8364) ?t = ?t" by (auto simp: filter_id_conv)
  then have again: "strip_currency (PStr ?t) = Inr ?t"
    by (simp add: strip_currency_def euro_sign_def replace_single strip_idem)
  have "filter amount_char ?t = filter amount_char ?u"
    by (rule filter_strip) (rule amount_char_not_space)
  also have "\<dots> = filter amount_char s"
    by (auto simp: amount_char_def intro: filter_cong)
  finally have keep: "filter amount_char ?t = filter amount_char s" .
  have parts: "?u = ?lead @ ?t @ ?trail" by (rule strip_decomp)
  have "list_all isspace ?lead" "list_all isspace ?trail"
    by (auto simp: list_all_iff dest: set_takeWhileD)
  with run again keep parts show ?thesis by blast
qed

theorem strip_currency_idempotent_conservative_witness:
  "strip_currency (PStr (str ''-15,00 '' @ [8364])) = Inr (str ''-15,00'') \<and>
   strip_currency (PStr (str ''-15,00'')) = Inr (str ''-15,00'')"
proof -
  from strip_currency_idempotent_conservative [of "str ''-15,00 '' @ [8364]"]
  obtain t where t: "strip_currency (PStr (str ''-15,00 '' @ [8364])) = Inr t"
    "strip_currency (PStr t) = Inr t"
    by blast
  have "strip_currency (PStr (str ''-15,00 '' @ [8364])) = Inr (str ''-15,00'')"
    by (simp add: strip_currency_def euro_sign_def replace_single strip_def lstrip_def
        rstrip_def isspace_def str_def)
  with t show ?thesis by simp
qed

section \<open>Properties of reading a file\<close>

lemma universal_newlines_plain:
  "13 \<notin> set t \<Longrightarrow> universal_newlines t = t"
  by (induction t rule: universal_newlines.induct) auto

lemma utf_8_decode_ascii:
  "\<forall>b \<in> set bs. b < 128 \<Longrightarrow> utf_8_decode final bs = Some (bs, [])"
  by (induction bs) (simp_all add: decoded_def)

lemma chunks_of_short:
  assumes "bs \<noteq> []" and "length bs \<le> 8192"
  shows "chunks_of bs = [bs]"
  using assms by (simp add: chunks_of.simps [of bs] chunks_of.simps [of "[]"] chunk_size_def)

lemma decode_latin1:
  "decode iso_8859_1 self input final = Inr (newline_decode self input final)"
  by (simp add: decode_def codec_decode_def)

lemma decode_chunks_step:
  assumes "decode enc self chunk False = Inr (out, self')"
  shows "snd (decode_chunks enc self (chunk # chunks)) = snd (decode_chunks enc self' chunks)"
  using assms by (simp split: prod.splits)

lemma decode_chunks_latin1:
  "snd (decode_chunks iso_8859_1 self chunks) = None"
proof (induction chunks arbitrary: self)
  case Nil
  show ?case by (simp add: decode_latin1 split: prod.splits)
next
  case (Cons chunk chunks)
  obtain out self' where "decode iso_8859_1 self chunk False = Inr (out, self')"
    by (cases "newline_decode self chunk False") (simp add: decode_latin1)
  from decode_chunks_step [OF this] Cons.IH show ?case by simp
qed

lemma decode_error:
  "decode enc self input final = Inl e \<Longrightarrow> e = UnicodeDecodeError"
  by (auto simp: decode_def codec_decode_def Let_def
           split: encoding.splits if_splits option.splits prod.splits sum.splits)

lemma decode_chunks_error:
  "snd (decode_chunks enc self chunks) = Some e \<Longrightarrow> e = UnicodeDecodeError"
proof (induction chunks arbitrary: self)
  case Nil
  then show ?case
    by (auto split: sum.splits prod.splits dest: decode_error)
next
  case (Cons chunk chunks)
  show ?case
  proof (cases "decode enc self chunk False")
    case (Inl x)
    with Cons.prems decode_error [OF Inl] show ?thesis by simp
  next
    case (Inr r)
    then obtain out self' where "decode enc self chunk False = Inr (out, self')"
      by (cases r) simp
    from decode_chunks_step [OF this] Cons.prems Cons.IH show ?thesis by simp
  qed
qed

lemma read_until_total:
  "\<exists>t. read_until enough got (outputs, None) = Inr t"
  by (induction outputs arbitrary: got) simp_all

lemma read_until_error:
  "read_until enough got (outputs, e) = Inl x \<Longrightarrow> e = Some x"
proof (induction outputs arbitrary: got)
  case Nil
  then show ?case by (cases e) simp_all
next
  case (Cons out outputs)
  then show ?case by (simp split: if_splits)
qed

lemma read_until_take:
  "read_until (\<lambda>t. n \<le> length t) got (outputs, None) = Inr t \<Longrightarrow>
   take n t = take n (got @ concat outputs)"
  by (induction outputs arbitrary: got) (auto split: if_splits)

lemma open_read_sample:
  assumes "open_text fs file_path enc = Inr file"
  shows "open_read fs file_path enc n = Inr (take n file)"
proof -
  from assms obtain content where c: "fs file_path = Some content"
    by (auto simp: open_text_def split: option.splits)
  obtain outputs e where d: "decoded_chunks enc content = (outputs, e)"
    by (cases "decoded_chunks enc content")
  from assms c d have e: "e = None" and f: "file = concat outputs"
    by (auto simp: open_text_def split: option.splits)
  obtain t where t: "read_until (\<lambda>t. n \<le> length t) [] (outputs, None) = Inr t"
    using read_until_total by blast
  from read_until_take [OF t] have "take n t = take n file" by (simp add: f)
  with c d e t show ?thesis by (simp add: open_read_def)
qed

lemma read_until_first_chunk:
  assumes "decode enc self chunk False = Inr (out, self')" and "enough out"
  shows "read_until enough [] (decode_chunks enc self (chunk # chunks)) = Inr out"
  using assms by (simp split: prod.splits)

lemma decoded_chunks_latin1_short:
  assumes "content \<noteq> []" and "length content \<le> 8192"
    and "(13::nat) \<notin> set (map of_char content)"
  shows "decoded_chunks iso_8859_1 content = ([map of_char content, []], None)"
proof -
  let ?bs = "map of_char content :: nat list"
  have nonempty: "?bs \<noteq> []" using assms by simp
  have last: "last ?bs \<noteq> 13" using assms(3) nonempty last_in_set by metis
  have chunks: "chunks_of ?bs = [?bs]"
    using assms by (intro chunks_of_short) simp_all
  show ?thesis
    using nonempty last
    by (simp add: decoded_chunks_def chunks decode_latin1 newline_decode_def Let_def
        universal_newlines_plain [OF assms(3)] del: last_map)
qed

lemma open_text_latin1_short:
  assumes "fs file_path = Some content"
    and "content \<noteq> []" and "length content \<le> 8192"
    and "(13::nat) \<notin> set (map of_char content)"
  shows "open_text fs file_path iso_8859_1 = Inr (map of_char content)"
  using assms(1) by (simp add: open_text_def decoded_chunks_latin1_short [OF assms(2-4)])

lemma decoded_chunks_ascii_short:
  assumes "content \<noteq> []" and "length content \<le> 8192"
    and "\<forall>b \<in> set (map of_char content). b < (128::nat) \<and> b \<noteq> 13"
  shows "decoded_chunks utf_8_sig content = ([map of_char content, []], None)"
proof -
  let ?bs = "map of_char content :: nat list"
  from assms obtain b bs where bs: "?bs = b # bs" and b: "b < 128"
    by (cases content) auto
  have no_bom: "\<not> prefix ?bs BOM_UTF8" "take 3 ?bs \<noteq> BOM_UTF8"
    using b by (auto simp: bs BOM_UTF8_def)
  have ascii: "utf_8_decode False ?bs = Some (?bs, [])"
    using assms by (intro utf_8_decode_ascii) auto
  have plain: "13 \<notin> set ?bs" using assms by auto
  have nonempty: "?bs \<noteq> []" using assms by simp
  have last: "last ?bs \<noteq> 13" using plain nonempty last_in_set by metis
  have chunks: "chunks_of ?bs = [?bs]"
    using assms by (intro chunks_of_short) simp_all
  show ?thesis
    using no_bom ascii nonempty last
    by (simp add: decoded_chunks_def chunks decode_def codec_decode_def
        newline_decode_def Let_def universal_newlines_plain [OF plain] del: last_map)
qed

lemma read_header_line_ascii_short:
  assumes "fs file_path = Some content"
    and "content \<noteq> []" and "length content \<le> 8192"
    and "\<forall>b \<in> set (map of_char content). b < (128::nat) \<and> b \<noteq> 13"
  shows "read_header_line fs file_path utf_8_sig = Inr (readline (map of_char content))"
  using assms(1) by (simp add: read_header_line_def decoded_chunks_ascii_short [OF assms(2-4)])

section \<open>Properties of the classifier\<close>

lemma first_match_chain:
  \<open>first_match header =
     (if startswith header (str ''"Kreditkarte:"'') then OLD_VISA
      else if startswith header (str ''"Kontonummer:"'') then CASH
      else if startswith header (str ''"Girokonto"'') then GIRO
      else if startswith header (str ''"Karte"'') then NEW_VISA
      else UNKNOWN)\<close>
  by (simp add: first_match_def detection_signatures_def startswith_def)

lemma read_header_line_latin1:
  assumes "fs file_path = Some content"
  shows "\<exists>header. read_header_line fs file_path iso_8859_1 = Inr header"
proof -
  obtain outputs e where d: "decoded_chunks iso_8859_1 content = (outputs, e)"
    by (cases "decoded_chunks iso_8859_1 content")
  with decode_chunks_latin1 [of "\<lparr>first = True, buffer = [], pendingcr = False\<rparr>"
      "chunks_of (map of_char content)"]
  have "e = None" by (simp add: decoded_chunks_def)
  moreover obtain t where "read_until (\<lambda>got. 10 \<in> set got) [] (outputs, None) = Inr t"
    using read_until_total by blast
  ultimately show ?thesis using assms d by (simp add: read_header_line_def)
qed

lemma read_header_line_error:
  assumes "read_header_line fs file_path enc = Inl e" and "fs file_path = Some content"
  shows "e = UnicodeDecodeError"
proof -
  obtain outputs e' where d: "decoded_chunks enc content = (outputs, e')"
    by (cases "decoded_chunks enc content")
  from assms d have "read_until (\<lambda>got. 10 \<in> set got) [] (outputs, e') = Inl e"
    by (simp add: read_header_line_def split: sum.splits)
  from read_until_error [OF this] d
  have "snd (decode_chunks enc \<lparr>first = True, buffer = [], pendingcr = False\<rparr>
               (chunks_of (map of_char content))) = Some e"
    by (simp add: decoded_chunks_def)
  then show ?thesis by (rule decode_chunks_error)
qed

lemma detect_csv_format_header:
  \<open>detect_csv_format fs file_path =
     (case (case read_header_line fs file_path utf_8_sig of
              Inl UnicodeDecodeError \<Rightarrow> read_header_line fs file_path iso_8859_1
            | r \<Rightarrow> r) of
        Inl e \<Rightarrow> Inl e
      | Inr header \<Rightarrow> Inr (first_match header))\<close>
  unfolding detect_csv_format_def first_match_chain ..

lemma utf_8_decode_ascii_prefix:
  "\<forall>b \<in> set as. b < 128 \<Longrightarrow>
   utf_8_decode final (as @ bs) =
     (case utf_8_decode final bs of
        None \<Rightarrow> None
      | Some (out, pending) \<Rightarrow> Some (as @ out, pending))"
  by (induction as) (simp_all add: decoded_def split: option.splits)

lemma split_first_chunk:
  assumes "length head = 15"
  shows "take 8192 (head @ replicate 8200 a @ [z]) = head @ replicate 8177 a"
    and "drop 8192 (head @ replicate 8200 a @ [z]) = replicate 23 a @ [z]"
  using assms by simp_all

text \<open>
  The header is read from the first chunk of the file that holds a line end: a byte
  that does not decode in a later chunk does not keep the classifier from its result
  under \<open>utf-8-sig\<close>, although reading the whole file under that encoding fails.
\<close>

lemma header_read_from_first_chunk:
  fixes fs :: filesystem
  defines \<open>content \<equiv> [CHR 0xEF, CHR 0xBB, CHR 0xBF] @ ''"Girokonto"'' @ [CHR 0x0A] @
                      replicate 8200 (CHR ''a'') @ [CHR 0xFF]\<close>
  assumes "fs file_path = Some content"
  shows "detect_csv_format fs file_path = Inr GIRO"
    and "open_text fs file_path utf_8_sig = Inl UnicodeDecodeError"
proof -
  let ?line = \<open>str ''"Girokonto"'' @ [10]\<close>
  let ?bs = "map of_char content :: nat list"
  have bs: "?bs = BOM_UTF8 @ ?line @ replicate 8200 97 @ [255]"
    by (simp add: content_def BOM_UTF8_def str_def)
  have len: "length ?line = 12"
    by (simp add: str_def)
  have ascii: "\<forall>b \<in> set (?line @ replicate 8177 97). b < 128"
    by (auto simp: str_def)
  have plain: "13 \<notin> set (?line @ replicate 8177 97)"
    by (auto simp: str_def)
  have head: "length (BOM_UTF8 @ ?line) = 15"
    by (simp add: BOM_UTF8_def str_def)
  have bs': "?bs = (BOM_UTF8 @ ?line) @ replicate 8200 97 @ [255]"
    by (simp add: bs)
  have first_chunk: "take chunk_size ?bs = BOM_UTF8 @ ?line @ replicate 8177 97"
    unfolding bs' chunk_size_def using split_first_chunk(1) [OF head] by simp
  have others: "drop chunk_size ?bs = replicate 23 97 @ [255]"
    unfolding bs' chunk_size_def by (rule split_first_chunk(2) [OF head])
  have nonempty: "?bs \<noteq> []"
    by (simp add: content_def)
  have chunks: "chunks_of ?bs = (BOM_UTF8 @ ?line @ replicate 8177 97) # chunks_of (replicate 23 97 @ [255])"
    using nonempty by (subst chunks_of.simps) (simp add: first_chunk others)
  have second: "chunks_of (replicate 23 97 @ [255::nat]) = [replicate 23 97 @ [255]]"
    by (rule chunks_of_short) simp_all
  let ?self = "\<lparr>first = True, buffer = [], pendingcr = False\<rparr>"
  have decoded: "decode utf_8_sig ?self (BOM_UTF8 @ ?line @ replicate 8177 97) False =
      Inr (?line @ replicate 8177 97, ?self\<lparr>first := False\<rparr>)"
    using utf_8_decode_ascii [OF ascii, of False] universal_newlines_plain [OF plain]
    by (simp add: decode_def codec_decode_def newline_decode_def Let_def BOM_UTF8_def)
  have "read_until (\<lambda>got. 10 \<in> set got) [] (decoded_chunks utf_8_sig content) =
      Inr (?line @ replicate 8177 97)"
    unfolding decoded_chunks_def chunks
    by (rule read_until_first_chunk [OF decoded]) simp
  moreover have "readline (?line @ replicate 8177 97) = ?line"
    by (simp add: readline_def str_def)
  ultimately have "read_header_line fs file_path utf_8_sig = Inr ?line"
    using assms(2) by (simp add: read_header_line_def)
  then show "detect_csv_format fs file_path = Inr GIRO"
    by (simp add: detect_csv_format_header first_match_chain startswith_def str_def)
  have "utf_8_decode False (replicate 23 97 @ [255]) = None"
    by (subst utf_8_decode_ascii_prefix) simp_all
  then have "decode utf_8_sig (?self\<lparr>first := False\<rparr>) (replicate 23 97 @ [255]) False =
      Inl UnicodeDecodeError"
    by (simp add: decode_def codec_decode_def)
  with decoded have "snd (decoded_chunks utf_8_sig content) = Some UnicodeDecodeError"
    unfolding decoded_chunks_def chunks second by simp
  with assms(2) show "open_text fs file_path utf_8_sig = Inl UnicodeDecodeError"
    by (cases "decoded_chunks utf_8_sig content") (simp add: open_text_def)
qed

text \<open>
  Claim C1. For every existing input file, \<open>detect_csv_format\<close> returns normally. The
  header it looks at is the first line of the file as \<open>readline\<close> decodes it under
  \<open>utf-8-sig\<close>, and under \<open>iso-8859-1\<close> when that raises \<open>UnicodeDecodeError\<close>; the
  result is the format of the first detection signature, in the order
  \<open>"Kreditkarte:"\<close> (OLD_VISA), \<open>"Kontonummer:"\<close> (CASH), \<open>"Girokonto"\<close> (GIRO),
  \<open>"Karte"\<close> (NEW_VISA), that is a prefix of this header, and \<open>UNKNOWN\<close> when none is;
  so the result is always one of the five format values.
\<close>

theorem detect_csv_format_first_match:
  assumes "fs file_path = Some content"
  shows "\<exists>header.
           (read_header_line fs file_path utf_8_sig = Inr header \<or>
            read_header_line fs file_path utf_8_sig = Inl UnicodeDecodeError \<and>
            read_header_line fs file_path iso_8859_1 = Inr header) \<and>
           detect_csv_format fs file_path = Inr (first_match header) \<and>
           first_match header \<in> {OLD_VISA, CASH, GIRO, NEW_VISA, UNKNOWN}"
proof -
  have five: "first_match header \<in> {OLD_VISA, CASH, GIRO, NEW_VISA, UNKNOWN}" for header
    by (cases "first_match header") auto
  show ?thesis
  proof (cases "read_header_line fs file_path utf_8_sig")
    case (Inr header)
    then have "detect_csv_format fs file_path = Inr (first_match header)"
      by (simp add: detect_csv_format_header)
    with Inr five show ?thesis by blast
  next
    case (Inl e)
    from read_header_line_error [of fs file_path utf_8_sig e content, OF Inl assms] Inl
    have utf: "read_header_line fs file_path utf_8_sig = Inl UnicodeDecodeError" by simp
    from read_header_line_latin1 [of fs file_path content, OF assms] obtain header
      where latin: "read_header_line fs file_path iso_8859_1 = Inr header" by blast
    from utf latin have "detect_csv_format fs file_path = Inr (first_match header)"
      by (simp add: detect_csv_format_header)
    with utf latin five show ?thesis by blast
  qed
qed

theorem detect_csv_format_first_match_witness:
  \<open>detect_csv_format
     [str ''umsaetze.csv'' \<mapsto> ''"Kontonummer:";"DE12 / Girokonto";'' @ [CHR 0x0A] @ ''x'']
     (str ''umsaetze.csv'') = Inr CASH\<close>
proof -
  let ?content = \<open>''"Kontonummer:";"DE12 / Girokonto";'' @ [CHR 0x0A] @ ''x''\<close>
  let ?fs = "[str ''umsaetze.csv'' \<mapsto> ?content]"
  let ?path = "str ''umsaetze.csv''"
  have stored: "?fs ?path = Some ?content"
    by simp
  have "read_header_line ?fs ?path utf_8_sig = Inr (readline (map of_char ?content))"
    by (rule read_header_line_ascii_short [of ?fs ?path ?content, OF stored]) simp_all
  then have header: \<open>read_header_line ?fs ?path utf_8_sig =
      Inr (str ''"Kontonummer:";"DE12 / Girokonto";'' @ [10])\<close>
    by (simp add: readline_def str_def)
  from detect_csv_format_first_match [of ?fs ?path ?content, OF stored] obtain header
    where "read_header_line ?fs ?path utf_8_sig = Inr header \<or>
           read_header_line ?fs ?path utf_8_sig = Inl UnicodeDecodeError \<and>
           read_header_line ?fs ?path iso_8859_1 = Inr header"
      and result: "detect_csv_format ?fs ?path = Inr (first_match header)"
    by (elim exE conjE)
  with header have \<open>header = str ''"Kontonummer:";"DE12 / Girokonto";'' @ [10]\<close>
    by (simp del: fun_upd_apply)
  then have "first_match header = CASH"
    by (simp add: first_match_chain startswith_def str_def)
  with result show ?thesis by simp
qed

section \<open>Properties of the date transforms\<close>

lemma digit_value_ascii: "ascii_digit c \<Longrightarrow> digit_value c = Some (c - 48)"
  by (simp add: ascii_digit_def digit_value_def decimal_zeros_def)

lemma ascii_digit_not_space: "ascii_digit c \<Longrightarrow> \<not> isspace c"
  by (auto simp: ascii_digit_def isspace_def)

lemma strip_digits2: "ascii_digit a \<Longrightarrow> ascii_digit b \<Longrightarrow> strip [a, b] = [a, b]"
  by (simp add: strip_def lstrip_def rstrip_def ascii_digit_not_space)

lemma strip_digits4:
  "ascii_digit a \<Longrightarrow> ascii_digit b \<Longrightarrow> ascii_digit c \<Longrightarrow> ascii_digit d \<Longrightarrow>
   strip [a, b, c, d] = [a, b, c, d]"
  by (simp add: strip_def lstrip_def rstrip_def ascii_digit_not_space)

lemma py_int2:
  "ascii_digit a \<Longrightarrow> ascii_digit b \<Longrightarrow> py_int [a, b] = Some (number2 a b)"
  by (simp add: py_int_def strip_digits2 digit_value_ascii number2_def)

lemma py_int4:
  "ascii_digit a \<Longrightarrow> ascii_digit b \<Longrightarrow> ascii_digit c \<Longrightarrow> ascii_digit d \<Longrightarrow>
   py_int [a, b, c, d] = Some (number4 a b c d)"
  by (simp add: py_int_def strip_digits4 digit_value_ascii number4_def)

lemma match_day2:
  assumes "ascii_digit a" "ascii_digit b" "1 \<le> number2 a b" "number2 a b \<le> 31"
  shows "\<exists>others. match_directive Day (a # b # s) = ([a, b], s) # others"
proof -
  have d: "digit_value b \<noteq> None" using assms(2) by (simp add: digit_value_ascii)
  consider "a = 48" "49 \<le> b" "b \<le> 57" | "a = 49 \<or> a = 50" | "a = 51" "b = 48 \<or> b = 49"
    using assms unfolding ascii_digit_def number2_def by force
  then show ?thesis
  proof cases
    case 1
    then show ?thesis by (simp add: match_directive_def List.map_filter_simps)
  next
    case 2
    then show ?thesis using d by (auto simp add: match_directive_def List.map_filter_simps)
  next
    case 3
    then show ?thesis by (auto simp add: match_directive_def List.map_filter_simps)
  qed
qed

lemma match_month2:
  assumes "ascii_digit a" "ascii_digit b" "1 \<le> number2 a b" "number2 a b \<le> 12"
  shows "\<exists>others. match_directive Month (a # b # s) = ([a, b], s) # others"
proof -
  consider "a = 48" "49 \<le> b" "b \<le> 57" | "a = 49" "48 \<le> b" "b \<le> 50"
    using assms unfolding ascii_digit_def number2_def by force
  then show ?thesis
    by cases (auto simp add: match_directive_def List.map_filter_simps)
qed

lemma match_year4:
  assumes "ascii_digit a" "ascii_digit b" "ascii_digit c" "ascii_digit d"
  shows "match_directive Year4 (a # b # c # d # s) = [([a, b, c, d], s)]"
  using assms by (simp add: match_directive_def List.map_filter_simps digit_value_ascii)

lemma match_year2:
  assumes "ascii_digit a" "ascii_digit b"
  shows "match_directive Year2 (a # b # s) = [([a, b], s)]"
  using assms by (simp add: match_directive_def List.map_filter_simps digit_value_ascii)


lemma concat_map_head:
  assumes "xs = x # others" "f x = y # ys"
  shows "\<exists>r. concat (map f xs) = y # r"
  using assms by simp

lemma match_items_dmY:
  assumes "ascii_digit d1" "ascii_digit d2" "1 \<le> number2 d1 d2" "number2 d1 d2 \<le> 31"
    and "ascii_digit m1" "ascii_digit m2" "1 \<le> number2 m1 m2" "number2 m1 m2 \<le> 12"
    and "ascii_digit y1" "ascii_digit y2" "ascii_digit y3" "ascii_digit y4"
  shows "\<exists>others.
           match_items [Directive Day, Literal 46, Directive Month, Literal 46, Directive Year4]
             [d1, d2, 46, m1, m2, 46, y1, y2, y3, y4] =
           ([(Day, [d1, d2]), (Month, [m1, m2]), (Year4, [y1, y2, y3, y4])], []) # others"
proof -
  obtain more_d where dd:
    "match_directive Day [d1, d2, 46, m1, m2, 46, y1, y2, y3, y4] =
       ([d1, d2], [46, m1, m2, 46, y1, y2, y3, y4]) # more_d"
    using match_day2 [OF assms(1-4)] by blast
  obtain more_m where mm:
    "match_directive Month [m1, m2, 46, y1, y2, y3, y4] = ([m1, m2], [46, y1, y2, y3, y4]) # more_m"
    using match_month2 [OF assms(5-8)] by blast
  have yy: "match_directive Year4 [y1, y2, y3, y4] = [([y1, y2, y3, y4], [])]"
    using match_year4 [OF assms(9-12)] by simp
  show ?thesis
    by (simp add: dd mm yy)
qed

lemma match_items_dmy:
  assumes "ascii_digit d1" "ascii_digit d2" "1 \<le> number2 d1 d2" "number2 d1 d2 \<le> 31"
    and "ascii_digit m1" "ascii_digit m2" "1 \<le> number2 m1 m2" "number2 m1 m2 \<le> 12"
    and "ascii_digit y1" "ascii_digit y2"
  shows "\<exists>others.
           match_items [Directive Day, Literal 46, Directive Month, Literal 46, Directive Year2]
             [d1, d2, 46, m1, m2, 46, y1, y2] =
           ([(Day, [d1, d2]), (Month, [m1, m2]), (Year2, [y1, y2])], []) # others"
proof -
  obtain more_d where dd:
    "match_directive Day [d1, d2, 46, m1, m2, 46, y1, y2] =
       ([d1, d2], [46, m1, m2, 46, y1, y2]) # more_d"
    using match_day2 [OF assms(1-4)] by blast
  obtain more_m where mm:
    "match_directive Month [m1, m2, 46, y1, y2] = ([m1, m2], [46, y1, y2]) # more_m"
    using match_month2 [OF assms(5-8)] by blast
  have yy: "match_directive Year2 [y1, y2] = [([y1, y2], [])]"
    using match_year2 [OF assms(9-10)] by simp
  show ?thesis
    by (simp add: dd mm yy)
qed

lemma days_in_month_le: "days_in_month y m \<le> 31"
  by (simp add: days_in_month_def)

lemma strptime_dmY:
  assumes "ascii_digit d1" "ascii_digit d2" "ascii_digit m1" "ascii_digit m2"
    and "ascii_digit y1" "ascii_digit y2" "ascii_digit y3" "ascii_digit y4"
    and "valid_date (number4 y1 y2 y3 y4) (number2 m1 m2) (number2 d1 d2)"
  shows "strptime (PStr [d1, d2, 46, m1, m2, 46, y1, y2, y3, y4])
           [Directive Day, Literal 46, Directive Month, Literal 46, Directive Year4] =
         Inr \<lparr>year = number4 y1 y2 y3 y4, month = number2 m1 m2, day = number2 d1 d2\<rparr>"
proof -
  have v: "1 \<le> number2 d1 d2" "number2 d1 d2 \<le> 31" "1 \<le> number2 m1 m2" "number2 m1 m2 \<le> 12"
    using assms(9) days_in_month_le [of "number4 y1 y2 y3 y4" "number2 m1 m2"]
    by (auto simp: valid_date_def)
  obtain others where m:
    "match_items [Directive Day, Literal 46, Directive Month, Literal 46, Directive Year4]
       [d1, d2, 46, m1, m2, 46, y1, y2, y3, y4] =
     ([(Day, [d1, d2]), (Month, [m1, m2]), (Year4, [y1, y2, y3, y4])], []) # others"
    using match_items_dmY [OF assms(1,2) v(1,2) assms(3,4) v(3,4) assms(5-8)] by blast
  show ?thesis
    using assms(9)
    by (simp add: strptime_def m group_int_def py_int2 py_int4 assms(1-8) datetime_date_def
        valid_date_def del: match_items.simps)
qed


lemma strptime_dmy:
  assumes "ascii_digit d1" "ascii_digit d2" "ascii_digit m1" "ascii_digit m2"
    and "ascii_digit y1" "ascii_digit y2"
    and "y = (if number2 y1 y2 \<le> 68 then number2 y1 y2 + 2000 else number2 y1 y2 + 1900)"
    and "valid_date y (number2 m1 m2) (number2 d1 d2)"
  shows "strptime (PStr [d1, d2, 46, m1, m2, 46, y1, y2])
           [Directive Day, Literal 46, Directive Month, Literal 46, Directive Year2] =
         Inr \<lparr>year = y, month = number2 m1 m2, day = number2 d1 d2\<rparr>"
proof -
  have v: "1 \<le> number2 d1 d2" "number2 d1 d2 \<le> 31" "1 \<le> number2 m1 m2" "number2 m1 m2 \<le> 12"
    using assms(8) days_in_month_le [of y "number2 m1 m2"]
    by (auto simp: valid_date_def)
  obtain others where m:
    "match_items [Directive Day, Literal 46, Directive Month, Literal 46, Directive Year2]
       [d1, d2, 46, m1, m2, 46, y1, y2] =
     ([(Day, [d1, d2]), (Month, [m1, m2]), (Year2, [y1, y2])], []) # others"
    using match_items_dmy [OF assms(1,2) v(1,2) assms(3,4) v(3,4) assms(5,6)] by blast
  show ?thesis
    using assms(7,8)
    by (simp add: strptime_def m group_int_def py_int2 assms(1-6) datetime_date_def
        valid_date_def del: match_items.simps)
qed

lemma decimal_digit: "n < 10 \<Longrightarrow> decimal n = [48 + n]"
  by (subst decimal.simps) simp

lemma decimal_step: "0 < n \<Longrightarrow> b < 10 \<Longrightarrow> decimal (10 * n + b) = decimal n @ [48 + b]"
  by (subst decimal.simps) simp

lemma zfill2_decimal:
  assumes "a < 10" "b < 10"
  shows "zfill 2 (decimal (10 * a + b)) = [48 + a, 48 + b]"
proof (cases "a = 0")
  case True
  with assms show ?thesis by (simp add: decimal_digit zfill_def)
next
  case False
  with assms show ?thesis by (simp add: decimal_step decimal_digit zfill_def)
qed

lemma decimal4:
  assumes "0 < a" "a < 10" "b < 10" "c < 10" "d < 10"
  shows "decimal (1000 * a + 100 * b + 10 * c + d) = [48 + a, 48 + b, 48 + c, 48 + d]"
proof -
  have h: "1000 * a + 100 * b + 10 * c + d = 10 * (10 * (10 * a + b) + c) + d"
    by simp
  have "decimal (10 * (10 * (10 * a + b) + c) + d) = decimal (10 * (10 * a + b) + c) @ [48 + d]"
    using assms by (intro decimal_step) auto
  also have "decimal (10 * (10 * a + b) + c) = decimal (10 * a + b) @ [48 + c]"
    using assms by (intro decimal_step) auto
  also have "decimal (10 * a + b) = decimal a @ [48 + b]"
    using assms by (intro decimal_step) auto
  also have "decimal a = [48 + a]"
    using assms by (intro decimal_digit)
  finally show ?thesis unfolding h by simp
qed

lemma zfill4_decimal:
  assumes "a < 10" "b < 10" "c < 10" "d < 10"
  shows "zfill 4 (decimal (1000 * a + 100 * b + 10 * c + d)) = [48 + a, 48 + b, 48 + c, 48 + d]"
proof -
  consider "0 < a" | "a = 0" "0 < b" | "a = 0" "b = 0" "0 < c" | "a = 0" "b = 0" "c = 0"
    by auto
  then show ?thesis
  proof cases
    case 1
    with assms show ?thesis by (simp add: decimal4 zfill_def)
  next
    case 2
    have "100 * b + 10 * c + d = 10 * (10 * b + c) + d" by simp
    moreover have "decimal (10 * (10 * b + c) + d) = decimal (10 * b + c) @ [48 + d]"
      using 2 assms by (intro decimal_step) auto
    moreover have "decimal (10 * b + c) = decimal b @ [48 + c]"
      using 2 assms by (intro decimal_step) auto
    ultimately show ?thesis
      using 2 assms by (simp add: decimal_digit zfill_def)
  next
    case 3
    have "decimal (10 * c + d) = decimal c @ [48 + d]"
      using 3 assms by (intro decimal_step) auto
    then show ?thesis
      using 3 assms by (simp add: decimal_digit zfill_def numeral_2_eq_2)
  next
    case 4
    with assms show ?thesis
      by (simp add: decimal_digit zfill_def numeral_3_eq_3)
  qed
qed

lemma ascii_digit_value: "ascii_digit c \<Longrightarrow> c - 48 < 10 \<and> 48 + (c - 48) = c"
  by (auto simp: ascii_digit_def)

lemma format_two:
  assumes "ascii_digit a" "ascii_digit b"
  shows "zfill 2 (decimal (number2 a b)) = [a, b]"
  using zfill2_decimal [of "a - 48" "b - 48"] ascii_digit_value [OF assms(1)]
    ascii_digit_value [OF assms(2)]
  by (simp add: number2_def)

lemma format_four_padded:
  assumes "ascii_digit a" "ascii_digit b" "ascii_digit c" "ascii_digit d"
  shows "zfill 4 (decimal (number4 a b c d)) = [a, b, c, d]"
  using zfill4_decimal [of "a - 48" "b - 48" "c - 48" "d - 48"] ascii_digit_value [OF assms(1)]
    ascii_digit_value [OF assms(2)] ascii_digit_value [OF assms(3)] ascii_digit_value [OF assms(4)]
  by (simp add: number4_def)

lemma format_four_plain:
  assumes "ascii_digit a" "ascii_digit b" "ascii_digit c" "ascii_digit d" "1000 \<le> number4 a b c d"
  shows "decimal (number4 a b c d) = [a, b, c, d]"
proof -
  have "0 < a - 48"
    using assms by (auto simp: number4_def ascii_digit_def)
  then show ?thesis
    using decimal4 [of "a - 48" "b - 48" "c - 48" "d - 48"] ascii_digit_value [OF assms(1)]
      ascii_digit_value [OF assms(2)] ascii_digit_value [OF assms(3)] ascii_digit_value [OF assms(4)]
    by (simp add: number4_def)
qed


lemma format_year_century:
  assumes "ascii_digit a" "ascii_digit b" "0 < h" "h < 10" "t < 10"
  shows "format_directive pf Year4 \<lparr>year = 1000 * h + 100 * t + number2 a b, month = m, day = d\<rparr>
           = [48 + h, 48 + t, a, b]"
proof -
  have "decimal (1000 * h + 100 * t + 10 * (a - 48) + (b - 48)) = [48 + h, 48 + t, a, b]"
    using decimal4 [of h t "a - 48" "b - 48"] assms ascii_digit_value [OF assms(1)]
      ascii_digit_value [OF assms(2)]
    by simp
  then have "decimal (1000 * h + 100 * t + number2 a b) = [48 + h, 48 + t, a, b]"
    by (simp add: number2_def add.assoc)
  then show ?thesis
    by (cases pf) (simp_all add: zfill_def)
qed

text \<open>
  Where \<open>convert_date\<close> does what its docstring says: for every valid date written
  \<open>dd.mm.yyyy\<close> with ASCII digits it returns the same digits as \<open>dd-mm-yyyy\<close>, provided
  the year is at least 1000 or the C library pads \<open>%Y\<close> with zeros.
\<close>

theorem convert_date_valid:
  assumes "ascii_digit d1" "ascii_digit d2" "ascii_digit m1" "ascii_digit m2"
    and "ascii_digit y1" "ascii_digit y2" "ascii_digit y3" "ascii_digit y4"
    and "valid_date (number4 y1 y2 y3 y4) (number2 m1 m2) (number2 d1 d2)"
    and "pf = Zero_padding \<or> 1000 \<le> number4 y1 y2 y3 y4"
  shows "convert_date pf (PStr [d1, d2, 46, m1, m2, 46, y1, y2, y3, y4]) =
           Inr [d1, d2, 45, m1, m2, 45, y1, y2, y3, y4]"
proof -
  have y: "format_directive pf Year4
             \<lparr>year = number4 y1 y2 y3 y4, month = number2 m1 m2, day = number2 d1 d2\<rparr>
           = [y1, y2, y3, y4]"
  proof (cases pf)
    case Glibc
    with assms(10) have "1000 \<le> number4 y1 y2 y3 y4" by simp
    with Glibc show ?thesis
      by (simp add: format_four_plain assms(5-8))
  next
    case Zero_padding
    then show ?thesis
      by (simp add: format_four_padded assms(5-8))
  qed
  show ?thesis
    unfolding convert_date_def strptime_dmY [OF assms(1-9)]
    using y by (simp add: format_two assms(1-4))
qed

theorem convert_date_valid_witness:
  "convert_date Glibc (PStr (str ''01.03.2023'')) = Inr (str ''01-03-2023'')"
proof -
  have "convert_date Glibc (PStr [48, 49, 46, 48, 51, 46, 50, 48, 50, 51]) =
          Inr [48, 49, 45, 48, 51, 45, 50, 48, 50, 51]"
    by (rule convert_date_valid)
       (simp_all add: ascii_digit_def valid_date_def number2_def number4_def days_in_month_def)
  then show ?thesis by (simp add: str_def)
qed

text \<open>
  Claim C4. For every valid date string in \<open>dd.mm.yyyy\<close> form, \<open>convert_date\<close> should
  produce the string in \<open>dd-mm-yyyy\<close> form with the same day, month and year; its
  docstring says the same (\<open>Convert the date_string to dd-mm-YYYY format\<close>). The code
  does not: on glibc, for the years before 1000, \<open>strftime\<close> writes the year without
  leading zeros, and the valid date \<open>01.01.0999\<close> becomes \<open>01-01-999\<close> and not
  \<open>01-01-0999\<close>.
\<close>

theorem convert_date_unpadded_year:
  "valid_date 999 1 1 \<and>
   convert_date Glibc (PStr (str ''01.01.0999'')) = Inr (str ''01-01-999'') \<and>
   convert_date Glibc (PStr (str ''01.01.0999'')) \<noteq> Inr (str ''01-01-0999'')"
proof -
  have "strptime (PStr [48, 49, 46, 48, 49, 46, 48, 57, 57, 57])
           [Directive Day, Literal 46, Directive Month, Literal 46, Directive Year4] =
         Inr \<lparr>year = number4 48 57 57 57, month = number2 48 49, day = number2 48 49\<rparr>"
    by (rule strptime_dmY)
       (simp_all add: ascii_digit_def valid_date_def number2_def number4_def days_in_month_def)
  moreover have "decimal 999 = [57, 57, 57]"
    by (simp add: decimal.simps)
  moreover have "decimal 1 = [49]"
    by (simp add: decimal.simps)
  ultimately have "convert_date Glibc (PStr (str ''01.01.0999'')) = Inr (str ''01-01-999'')"
    by (simp add: convert_date_def str_def number2_def number4_def zfill_def)
  moreover have "valid_date 999 1 1"
    by (simp add: valid_date_def days_in_month_def)
  ultimately show ?thesis
    by (simp add: str_def)
qed

text \<open>
  Claim C10. For every valid date written \<open>dd.mm.yy\<close> with ASCII digits,
  \<open>convert_short_date\<close> reads the year \<open>yy\<close> as \<open>2000 + yy\<close> when \<open>yy \<le> 68\<close> and as
  \<open>1900 + yy\<close> when \<open>69 \<le> yy\<close> (the date has to be valid in that year), and returns
  \<open>dd-mm-20yy\<close> or \<open>dd-mm-19yy\<close> accordingly, on every platform; \<open>05.04.23\<close> becomes
  \<open>05-04-2023\<close> and \<open>01.01.70\<close> becomes \<open>01-01-1970\<close>.
\<close>

theorem convert_short_date_century:
  assumes "ascii_digit d1" "ascii_digit d2" "ascii_digit m1" "ascii_digit m2"
    and "ascii_digit y1" "ascii_digit y2"
    and "valid_date (if number2 y1 y2 \<le> 68 then 2000 + number2 y1 y2 else 1900 + number2 y1 y2)
           (number2 m1 m2) (number2 d1 d2)"
  shows "convert_short_date pf (PStr [d1, d2, 46, m1, m2, 46, y1, y2]) =
           Inr ([d1, d2, 45, m1, m2, 45] @
                (if number2 y1 y2 \<le> 68 then [50, 48] else [49, 57]) @ [y1, y2])"
proof -
  let ?y = "if number2 y1 y2 \<le> 68 then number2 y1 y2 + 2000 else number2 y1 y2 + 1900"
  have v: "valid_date ?y (number2 m1 m2) (number2 d1 d2)"
    using assms(7) by (auto simp: add.commute split: if_splits)
  have p: "strptime (PStr [d1, d2, 46, m1, m2, 46, y1, y2])
             [Directive Day, Literal 46, Directive Month, Literal 46, Directive Year2] =
           Inr \<lparr>year = ?y, month = number2 m1 m2, day = number2 d1 d2\<rparr>"
    using assms(1-6) refl v by (rule strptime_dmy)
  have c20: "format_directive pf Year4
               \<lparr>year = number2 y1 y2 + 2000, month = number2 m1 m2, day = number2 d1 d2\<rparr>
             = [50, 48, y1, y2]"
    using format_year_century [OF assms(5,6), of 2 0 pf] by (simp add: add.commute)
  have c19: "format_directive pf Year4
               \<lparr>year = number2 y1 y2 + 1900, month = number2 m1 m2, day = number2 d1 d2\<rparr>
             = [49, 57, y1, y2]"
    using format_year_century [OF assms(5,6), of 1 9 pf] by (simp add: add.commute)
  show ?thesis
    unfolding convert_short_date_def p
    using c20 c19 by (simp add: format_two assms(1-4))
qed

theorem convert_short_date_century_witness:
  "convert_short_date Glibc (PStr (str ''05.04.23'')) = Inr (str ''05-04-2023'') \<and>
   convert_short_date Glibc (PStr (str ''01.01.70'')) = Inr (str ''01-01-1970'')"
proof -
  have "convert_short_date Glibc (PStr [48, 53, 46, 48, 52, 46, 50, 51]) =
          Inr ([48, 53, 45, 48, 52, 45] @
               (if number2 50 51 \<le> 68 then [50, 48] else [49, 57]) @ [50, 51])"
    by (rule convert_short_date_century)
       (simp_all add: ascii_digit_def valid_date_def number2_def days_in_month_def)
  moreover
  have "convert_short_date Glibc (PStr [48, 49, 46, 48, 49, 46, 55, 48]) =
          Inr ([48, 49, 45, 48, 49, 45] @
               (if number2 55 48 \<le> 68 then [50, 48] else [49, 57]) @ [55, 48])"
    by (rule convert_short_date_century)
       (simp_all add: ascii_digit_def valid_date_def number2_def days_in_month_def)
  ultimately show ?thesis
    by (simp add: str_def number2_def)
qed

section \<open>A file without header line\<close>

lemma find_transaction_lines_raises:
  assumes "\<forall>l \<in> set lines. \<not> is_header_line l"
  shows "find_transaction_lines lines =
           Inl (ValueError ''Can't convert CSV file without header line'')"
  unfolding find_transaction_lines_def using assms by (rule find_transaction_loop_no_header)

text \<open>
  When the whole file decodes, the sample that is sniffed is the first 1024 characters
  of its text.
\<close>

lemma open_csv_opened:
  assumes "open_text (files e) file_path enc = Inr file"
  shows "open_csv e file_path field_names enc =
           and_then (sniff e (take 1024 file)) (\<lambda>dialect.
           and_then (find_transaction_lines (readlines file)) (\<lambda>lines.
           Inr (DictReader lines dialect field_names)))"
  using assms open_read_sample [OF assms, of 1024]
  by (simp add: open_csv_def and_then_def)

lemma cash_example_text:
  "open_text (files cash_env) (str ''in.csv'') iso_8859_1 = Inr (map of_char cash_example)"
  by (rule open_text_latin1_short) (simp_all add: cash_env_def cash_example_def)


lemma comma_example_text:
  "open_text (files comma_env) (str ''in.csv'') iso_8859_1 = Inr (map of_char comma_example)"
  by (rule open_text_latin1_short) (simp_all add: comma_env_def comma_example_def)

lemma open_csv_no_header:
  assumes "open_text (files e) file_path enc = Inr file"
    and "\<forall>l \<in> set (readlines file). \<not> is_header_line l"
  shows "open_csv e file_path field_names enc =
           Inl (case sniff e (take 1024 file) of
                  Inl err \<Rightarrow> err
                | Inr d \<Rightarrow> ValueError ''Can't convert CSV file without header line'')"
  using find_transaction_lines_raises [OF assms(2)]
  by (simp add: open_csv_opened [OF assms(1)] and_then_def split: sum.splits)

text \<open>
  Claim C6, as amended. When no line contains both \<open>Betrag\<close> and \<open>Wertstellung\<close>,
  \<open>find_transaction_lines\<close> returns no lines but raises \<open>ValueError\<close> with the message
  \<open>Can't convert CSV file without header line\<close>; and a converter called on such a file
  ends with an exception (the \<open>csv.Error\<close> of the sniffer if that fails first, this
  \<open>ValueError\<close> otherwise) before it opens the output file, so nothing is written.
\<close>

theorem no_header_is_fatal:
  assumes "\<forall>l \<in> set lines. \<not> is_header_line l"
  shows "find_transaction_lines lines =
           Inl (ValueError ''Can't convert CSV file without header line'') \<and>
         (open_text (files e) file_path enc = Inr file \<and> readlines file = lines \<longrightarrow>
            convert_with rowdict e file_path field_names enc out_path =
              \<lparr>written = None,
               raised = Some (case sniff e (take 1024 file) of
                                Inl err \<Rightarrow> err
                              | Inr d \<Rightarrow> ValueError ''Can't convert CSV file without header line'')\<rparr>)"
proof (intro conjI impI)
  show "find_transaction_lines lines =
          Inl (ValueError ''Can't convert CSV file without header line'')"
    using assms by (rule find_transaction_lines_raises)
next
  assume a: "open_text (files e) file_path enc = Inr file \<and> readlines file = lines"
  then have "\<forall>l \<in> set (readlines file). \<not> is_header_line l"
    using assms by simp
  with a have "open_csv e file_path field_names enc =
           Inl (case sniff e (take 1024 file) of
                  Inl err \<Rightarrow> err
                | Inr d \<Rightarrow> ValueError ''Can't convert CSV file without header line'')"
    by (intro open_csv_no_header) simp_all
  then show "convert_with rowdict e file_path field_names enc out_path =
              \<lparr>written = None,
               raised = Some (case sniff e (take 1024 file) of
                                Inl err \<Rightarrow> err
                              | Inr d \<Rightarrow> ValueError ''Can't convert CSV file without header line'')\<rparr>"
    by (simp add: convert_with_def)
qed


theorem no_header_is_fatal_witness:
  \<open>find_transaction_lines [str ''"Kontonummer:";"DE12";'' @ [10], str ''01.03.2023;x'' @ [10]] =
     Inl (ValueError ''Can't convert CSV file without header line'') \<and>
   convert_cash
     \<lparr>files = [str ''in.csv'' \<mapsto> ''"Kontonummer:";"DE12";'' @ [CHR 0x0A] @ ''01.03.2023;x'' @ [CHR 0x0A]],
      sniff = (\<lambda>sample. Inr DKB), libc = Glibc\<rparr>
     (str ''in.csv'') (str ''cashHomebank.csv'') =
     \<lparr>written = None,
      raised = Some (ValueError ''Can't convert CSV file without header line'')\<rparr>\<close>
proof -
  let ?lines = \<open>[str ''"Kontonummer:";"DE12";'' @ [10], str ''01.03.2023;x'' @ [10]]\<close>
  let ?content = \<open>''"Kontonummer:";"DE12";'' @ [CHR 0x0A] @ ''01.03.2023;x'' @ [CHR 0x0A]\<close>
  let ?e = "\<lparr>files = [str ''in.csv'' \<mapsto> ?content], sniff = (\<lambda>sample. Inr DKB), libc = Glibc\<rparr>"
  let ?file = "map of_char ?content"
  have no: "\<forall>l \<in> set ?lines. \<not> is_header_line l"
    by (simp add: is_header_line_def str_def)
  have "open_text (files ?e) (str ''in.csv'') iso_8859_1 = Inr ?file"
    by (rule open_text_latin1_short [of "files ?e" "str ''in.csv''" ?content]) simp_all
  moreover have "readlines ?file = ?lines"
    by (simp add: str_def)
  ultimately have opened:
    "open_text (files ?e) (str ''in.csv'') iso_8859_1 = Inr ?file \<and> readlines ?file = ?lines"
    by (rule conjI)
  from no_header_is_fatal [OF no, of ?e "str ''in.csv''" iso_8859_1 ?file
      "cash_row (libc ?e)" cash_field_names "str ''cashHomebank.csv''"] opened
  show ?thesis
    by (simp add: convert_cash_def)
qed

text \<open>
  The claim as stated names the exception \<open>InvalidInputError\<close>; the class
  \<open>InvalidInputException\<close> is declared in the source and never raised: what a file
  without header line raises is a \<open>ValueError\<close>.
\<close>

theorem no_header_raises_ValueError:
  \<open>find_transaction_lines [str ''"Kontonummer:";"DE12";'' @ [10]] =
     Inl (ValueError ''Can't convert CSV file without header line'') \<and>
   \<not> (\<exists>message. find_transaction_lines [str ''"Kontonummer:";"DE12";'' @ [10]] =
                   Inl (InvalidInputException message))\<close>
proof -
  have \<open>find_transaction_lines [str ''"Kontonummer:";"DE12";'' @ [10]] =
          Inl (ValueError ''Can't convert CSV file without header line'')\<close>
    by (simp add: find_transaction_lines_def is_header_line_def str_def)
  then show ?thesis by simp
qed

section \<open>A file of unknown format\<close>

lemma depot_unknown:
  \<open>detect_csv_format [str ''depot.csv'' \<mapsto> ''"Depot:","1234"'' @ [CHR 0x0A]] (str ''depot.csv'') =
     Inr UNKNOWN\<close>
proof -
  let ?content = \<open>''"Depot:","1234"'' @ [CHR 0x0A]\<close>
  let ?fs = "[str ''depot.csv'' \<mapsto> ?content]"
  have "read_header_line ?fs (str ''depot.csv'') utf_8_sig = Inr (readline (map of_char ?content))"
    by (rule read_header_line_ascii_short [of ?fs "str ''depot.csv''" ?content]) simp_all
  then show ?thesis
    by (simp add: detect_csv_format_header first_match_chain readline_def startswith_def str_def
        del: fun_upd_apply)
qed

text \<open>
  Claim C8, as amended. For every input file classified as \<open>UNKNOWN\<close>, \<open>main\<close> prints the
  error message on standard error, converts nothing and writes no output file, and
  returns without an exception, so that the exit status of the process is 0.
\<close>

theorem main_unknown_format:
  assumes "detect_csv_format (files e) (filename a) = Inr UNKNOWN"
  shows "main e a =
           \<lparr>written = None, raised = None,
            stdout = (if debug a
                      then [str ''Looks like we're trying to convert a unknown CSV file'']
                      else []),
            stderr = [str ''Could not detect CSV file type. Are you sure this is a legitimate file?'']\<rparr> \<and>
         exit_status (main e a) = 0"
  using assms by (simp add: main_def exit_status_def str_def)

theorem main_unknown_format_witness:
  \<open>main \<lparr>files = [str ''depot.csv'' \<mapsto> ''"Depot:","1234"'' @ [CHR 0x0A]],
          sniff = (\<lambda>sample. Inr \<lparr>delimiter = 44, quotechar = 34, doublequote = False,
                                  skipinitialspace = False\<rparr>),
          libc = Glibc\<rparr>
        \<lparr>filename = str ''depot.csv'', output_file = None, debug = False\<rparr> =
     \<lparr>written = None, raised = None, stdout = [],
      stderr = [str ''Could not detect CSV file type. Are you sure this is a legitimate file?'']\<rparr>\<close>
proof -
  let ?content = \<open>''"Depot:","1234"'' @ [CHR 0x0A]\<close>
  let ?e = "\<lparr>files = [str ''depot.csv'' \<mapsto> ?content],
          sniff = (\<lambda>sample. Inr \<lparr>delimiter = 44, quotechar = 34, doublequote = False,
                                  skipinitialspace = False\<rparr>),
          libc = Glibc\<rparr>"
  let ?a = "\<lparr>filename = str ''depot.csv'', output_file = None, debug = False\<rparr>"
  have "detect_csv_format (files ?e) (filename ?a) = Inr UNKNOWN"
    using depot_unknown by simp
  from main_unknown_format [OF this] show ?thesis
    by simp
qed

text \<open>
  The claim as stated fails in its last part: on the file whose first line is
  \<open>"Depot:","1234"\<close> the classification is \<open>UNKNOWN\<close> and the exit status is 0.
\<close>

theorem unknown_format_exit_status_zero:
  \<open>detect_csv_format [str ''depot.csv'' \<mapsto> ''"Depot:","1234"'' @ [CHR 0x0A]] (str ''depot.csv'') =
     Inr UNKNOWN \<and>
   exit_status
     (main \<lparr>files = [str ''depot.csv'' \<mapsto> ''"Depot:","1234"'' @ [CHR 0x0A]],
            sniff = (\<lambda>sample. Inr \<lparr>delimiter = 44, quotechar = 34, doublequote = False,
                                    skipinitialspace = False\<rparr>),
            libc = Glibc\<rparr>
          \<lparr>filename = str ''depot.csv'', output_file = None, debug = False\<rparr>) = 0\<close>
proof -
  note depot_unknown
  then show ?thesis
    by (simp add: main_def exit_status_def)
qed

section \<open>Properties of the written rows\<close>

lemma dict_of_target:
  "dict_of [(str ''date'', v1), (str ''paymode'', v2), (str ''info'', v3), (str ''payee'', v4),
            (str ''memo'', v5), (str ''amount'', v6), (str ''category'', v7), (str ''tags'', v8)] =
   [(str ''date'', v1), (str ''paymode'', v2), (str ''info'', v3), (str ''payee'', v4),
    (str ''memo'', v5), (str ''amount'', v6), (str ''category'', v7), (str ''tags'', v8)]"
  by (simp add: dict_of_def str_def)

lemma writerow_target:
  "writerow homebank_field_names
     [(str ''date'', v1), (str ''paymode'', v2), (str ''info'', v3), (str ''payee'', v4),
      (str ''memo'', v5), (str ''amount'', v6), (str ''category'', v7), (str ''tags'', v8)] =
   Inr (map field_text [v1, v2, v3, v4, v5, v6, v7, v8])"
  by (simp add: writerow_def dict_to_list_def homebank_field_names_def str_def)

lemma cash_row_target: "cash_row pf row = Inr rowdict \<Longrightarrow> target_dict rowdict"
  by (auto simp: cash_row_def and_then_def dict_of_target target_dict_def split: sum.splits)

lemma old_visa_row_target: "old_visa_row pf row = Inr rowdict \<Longrightarrow> target_dict rowdict"
  by (auto simp: old_visa_row_def and_then_def dict_of_target target_dict_def split: sum.splits)

lemma new_visa_row_target: "new_visa_row pf row = Inr rowdict \<Longrightarrow> target_dict rowdict"
  by (auto simp: new_visa_row_def and_then_def dict_of_target target_dict_def split: sum.splits)

lemma giro_row_target: "giro_row pf row = Inr rowdict \<Longrightarrow> target_dict rowdict"
  by (auto simp: giro_row_def and_then_def dict_of_target target_dict_def split: sum.splits)


lemma cash_example_run:
  "convert_cash cash_env (str ''in.csv'') (str ''out.csv'') =
     \<lparr>written = Some (str ''out.csv'',
        [[str ''01-03-2023'', str ''8'', [], str ''ACME GmbH'', str ''Invoice 123'', str ''-42,50'', [], []]]),
      raised = None\<rparr>"
  unfolding convert_cash_def convert_with_def open_csv_opened [OF cash_example_text]
  by (simp add: and_then_def
      str_def find_transaction_lines_def is_header_line_def DictReader_def
      parse_reset_def cash_env_def cash_example_def sniffed_def parse_add_char_def
      parse_save_field_def is_newline_def end_of_field_def add_char_then_def field_limit_def
      bind_row_def dict_of_def cash_field_names_def cash_row_def getitem_def
      convert_date_def strptime_def match_directive_def List.map_filter_simps
      digit_value_def decimal_zeros_def group_int_def py_int_def strip_def lstrip_def rstrip_def
      isspace_def datetime_date_def days_in_month_def is_leap_def zfill_def decimal.simps
      writerow_def dict_to_list_def homebank_field_names_def int_repr_def)


lemma target_row:
  assumes "target_dict rowdict" "writerow homebank_field_names rowdict = Inr r"
  shows "map (\<lambda>key. map_option field_text (map_of rowdict key))
           [str ''date'', str ''paymode'', str ''info'', str ''payee'', str ''memo'',
            str ''amount'', str ''category'', str ''tags''] = map Some r \<and>
         map_of rowdict (str ''info'') = Some PNone \<and>
         map_of rowdict (str ''category'') = Some PNone \<and>
         map_of rowdict (str ''tags'') = Some PNone \<and>
         length r = 8 \<and> r ! 2 = [] \<and> r ! 6 = [] \<and> r ! 7 = []"
proof -
  from assms(1) obtain v1 v2 v4 v5 v6 where d: "rowdict =
        [(str ''date'', v1), (str ''paymode'', v2), (str ''info'', PNone), (str ''payee'', v4),
         (str ''memo'', v5), (str ''amount'', v6), (str ''category'', PNone), (str ''tags'', PNone)]"
    unfolding target_dict_def by blast
  from assms(2) have "r = map field_text [v1, v2, PNone, v4, v5, v6, PNone, PNone]"
    unfolding d writerow_target by simp
  then show ?thesis
    unfolding d by (simp add: str_def)
qed

lemma write_rows_origin:
  assumes "write_rows f rows out = (result, err)" and "r \<in> set result"
  shows "r \<in> set out \<or>
         (\<exists>row \<in> set rows. \<exists>rowdict.
            f row = Inr rowdict \<and> writerow homebank_field_names rowdict = Inr r)"
  using assms
proof (induction rows arbitrary: out)
  case Nil
  then show ?case by simp
next
  case (Cons row rows)
  show ?case
  proof (cases "and_then (f row) (writerow homebank_field_names)")
    case (Inl e)
    with Cons.prems show ?thesis by simp
  next
    case (Inr line)
    then obtain rowdict where line: "f row = Inr rowdict"
        "writerow homebank_field_names rowdict = Inr line"
      by (auto simp: and_then_def split: sum.splits)
    from Cons.prems(1) Inr have "write_rows f rows (out @ [line]) = (result, err)"
      by simp
    from Cons.IH [OF this Cons.prems(2)] line show ?thesis
      by auto
  qed
qed

lemma convert_with_origin:
  assumes "written (convert_with f e file_path names enc out_path) = Some (p, rows)"
    and "r \<in> set rows"
  shows "\<exists>sources rerr source rowdict.
           open_csv e file_path names enc = Inr (sources, rerr) \<and> source \<in> set sources \<and>
           f source = Inr rowdict \<and> writerow homebank_field_names rowdict = Inr r"
proof -
  from assms(1) obtain sources rerr err where
    opened: "open_csv e file_path names enc = Inr (sources, rerr)" and
    w: "write_rows f sources [] = (rows, err)"
    by (auto simp: convert_with_def split: sum.splits prod.splits option.splits)
  from write_rows_origin [OF w assms(2)] opened show ?thesis
    by auto
qed

lemma projector_rows:
  assumes "\<And>source rowdict. f source = Inr rowdict \<Longrightarrow> target_dict rowdict"
    and "written (convert_with f e file_path names enc out_path) = Some (p, rows)"
    and "r \<in> set rows"
  shows "\<exists>sources rerr source rowdict.
           open_csv e file_path names enc = Inr (sources, rerr) \<and> source \<in> set sources \<and>
           f source = Inr rowdict \<and>
           map (\<lambda>key. map_option field_text (map_of rowdict key))
             [str ''date'', str ''paymode'', str ''info'', str ''payee'', str ''memo'',
              str ''amount'', str ''category'', str ''tags''] = map Some r \<and>
           map_of rowdict (str ''info'') = Some PNone \<and>
           map_of rowdict (str ''category'') = Some PNone \<and>
           map_of rowdict (str ''tags'') = Some PNone \<and>
           length r = 8 \<and> r ! 2 = [] \<and> r ! 6 = [] \<and> r ! 7 = []"
proof -
  from convert_with_origin [OF assms(2,3)] obtain sources rerr source rowdict where
    o: "open_csv e file_path names enc = Inr (sources, rerr)" "source \<in> set sources"
       "f source = Inr rowdict" "writerow homebank_field_names rowdict = Inr r"
    by blast
  from target_row [OF assms(1) [OF o(3)] o(4)] o(1,2,3) show ?thesis
    by blast
qed

text \<open>
  Claim C3. Every row that any of the four converters writes comes from a row read
  from the input file: it is the dictionary the converter's projector builds for that
  row, written as the texts of its values under the keys \<open>date\<close>, \<open>paymode\<close>, \<open>info\<close>,
  \<open>payee\<close>, \<open>memo\<close>, \<open>amount\<close>, \<open>category\<close>, \<open>tags\<close>, in this order. The dictionary
  holds \<open>None\<close> under \<open>info\<close>, \<open>category\<close> and \<open>tags\<close>; so the row has exactly eight
  fields, and its third, seventh and eighth field are empty.
\<close>

theorem written_rows_homebank:
  assumes "(conv, project, names, enc) \<in>
             {(convert_cash, cash_row, cash_field_names, iso_8859_1),
              (convert_old_visa, old_visa_row, old_visa_field_names, iso_8859_1),
              (convert_new_visa, new_visa_row, new_visa_field_names, utf_8_sig),
              (convert_giro, giro_row, giro_field_names, utf_8_sig)}"
    and "written (conv e file_path out_path) = Some (p, rows)"
    and "r \<in> set rows"
  shows "\<exists>sources rerr source rowdict.
           open_csv e file_path names enc = Inr (sources, rerr) \<and> source \<in> set sources \<and>
           project (libc e) source = Inr rowdict \<and>
           map (\<lambda>key. map_option field_text (map_of rowdict key))
             [str ''date'', str ''paymode'', str ''info'', str ''payee'', str ''memo'',
              str ''amount'', str ''category'', str ''tags''] = map Some r \<and>
           map_of rowdict (str ''info'') = Some PNone \<and>
           map_of rowdict (str ''category'') = Some PNone \<and>
           map_of rowdict (str ''tags'') = Some PNone \<and>
           length r = 8 \<and> r ! 2 = [] \<and> r ! 6 = [] \<and> r ! 7 = []"
proof -
  consider
      "conv = convert_cash" "project = cash_row" "names = cash_field_names" "enc = iso_8859_1"
    | "conv = convert_old_visa" "project = old_visa_row" "names = old_visa_field_names"
      "enc = iso_8859_1"
    | "conv = convert_new_visa" "project = new_visa_row" "names = new_visa_field_names"
      "enc = utf_8_sig"
    | "conv = convert_giro" "project = giro_row" "names = giro_field_names" "enc = utf_8_sig"
    using assms(1) by auto
  then show ?thesis
  proof cases
    case 1
    with assms(2) have "written (convert_with (cash_row (libc e)) e file_path cash_field_names
        iso_8859_1 out_path) = Some (p, rows)"
      by (simp add: convert_cash_def)
    with cash_row_target show ?thesis
      unfolding 1 using assms(3) by (rule projector_rows)
  next
    case 2
    with assms(2) have "written (convert_with (old_visa_row (libc e)) e file_path
        old_visa_field_names iso_8859_1 out_path) = Some (p, rows)"
      by (simp add: convert_old_visa_def)
    with old_visa_row_target show ?thesis
      unfolding 2 using assms(3) by (rule projector_rows)
  next
    case 3
    with assms(2) have "written (convert_with (new_visa_row (libc e)) e file_path
        new_visa_field_names utf_8_sig out_path) = Some (p, rows)"
      by (simp add: convert_new_visa_def)
    with new_visa_row_target show ?thesis
      unfolding 3 using assms(3) by (rule projector_rows)
  next
    case 4
    with assms(2) have "written (convert_with (giro_row (libc e)) e file_path
        giro_field_names utf_8_sig out_path) = Some (p, rows)"
      by (simp add: convert_giro_def)
    with giro_row_target show ?thesis
      unfolding 4 using assms(3) by (rule projector_rows)
  qed
qed

theorem written_rows_homebank_witness:
  "written (convert_cash cash_env (str ''in.csv'') (str ''out.csv'')) =
     Some (str ''out.csv'',
       [[str ''01-03-2023'', str ''8'', [], str ''ACME GmbH'', str ''Invoice 123'',
         str ''-42,50'', [], []]]) \<and>
   (\<exists>sources rerr source rowdict.
      open_csv cash_env (str ''in.csv'') cash_field_names iso_8859_1 = Inr (sources, rerr) \<and>
      source \<in> set sources \<and> cash_row Glibc source = Inr rowdict \<and>
      map (\<lambda>key. map_option field_text (map_of rowdict key))
        [str ''date'', str ''paymode'', str ''info'', str ''payee'', str ''memo'',
         str ''amount'', str ''category'', str ''tags''] =
      map Some [str ''01-03-2023'', str ''8'', [], str ''ACME GmbH'', str ''Invoice 123'',
                str ''-42,50'', [], []])"
proof -
  let ?r = "[str ''01-03-2023'', str ''8'', [], str ''ACME GmbH'', str ''Invoice 123'',
             str ''-42,50'', [], []]"
  have w: "written (convert_cash cash_env (str ''in.csv'') (str ''out.csv'')) =
             Some (str ''out.csv'', [?r])"
    by (simp add: cash_example_run)
  have c: "(convert_cash, cash_row, cash_field_names, iso_8859_1) \<in>
             {(convert_cash, cash_row, cash_field_names, iso_8859_1),
              (convert_old_visa, old_visa_row, old_visa_field_names, iso_8859_1),
              (convert_new_visa, new_visa_row, new_visa_field_names, utf_8_sig),
              (convert_giro, giro_row, giro_field_names, utf_8_sig)}"
    by (rule insertI1)
  have r: "?r \<in> set [?r]"
    by simp
  have "libc cash_env = Glibc"
    by (simp add: cash_env_def)
  with written_rows_homebank [OF c w r] w show ?thesis
    by (simp only:) blast
qed

section \<open>A row with a bad date\<close>















section \<open>Properties of the record parser\<close>

lemma update_fresh: "k \<notin> fst ` set d \<Longrightarrow> AList.update k v d = d @ [(k, v)]"
  by (induction d) auto

lemma foldl_update_distinct:
  "distinct (map fst (d @ kvs)) \<Longrightarrow>
   foldl (\<lambda>d (k, v). AList.update k v d) d kvs = d @ kvs"
proof (induction kvs arbitrary: d)
  case Nil
  then show ?case by simp
next
  case (Cons kv kvs)
  obtain k v where kv: "kv = (k, v)" by (cases kv)
  have fresh: "k \<notin> fst ` set d"
    using Cons.prems kv by auto
  have "distinct (map fst ((d @ [(k, v)]) @ kvs))"
    using Cons.prems kv by auto
  then have "foldl (\<lambda>d (k, v). AList.update k v d) (d @ [(k, v)]) kvs = (d @ [(k, v)]) @ kvs"
    by (rule Cons.IH)
  then show ?case
    by (simp add: kv update_fresh [OF fresh])
qed

lemma foldl_fill_distinct:
  "distinct (map fst d @ keys) \<Longrightarrow>
   foldl (\<lambda>d key. AList.update key z d) d keys = d @ map (\<lambda>k. (k, z)) keys"
proof (induction keys arbitrary: d)
  case Nil
  then show ?case by simp
next
  case (Cons k keys)
  have fresh: "k \<notin> fst ` set d"
    using Cons.prems by auto
  have "distinct (map fst (d @ [(k, z)]) @ keys)"
    using Cons.prems by auto
  then have "foldl (\<lambda>d key. AList.update key z d) (d @ [(k, z)]) keys =
               (d @ [(k, z)]) @ map (\<lambda>k. (k, z)) keys"
    by (rule Cons.IH)
  then show ?case
    by (simp add: update_fresh [OF fresh])
qed

lemma zip_fill:
  "zip names (vals @ replicate (length names - length vals) z) =
     zip names vals @ map (\<lambda>k. (k, z)) (drop (length vals) names)"
proof (induction names arbitrary: vals)
  case Nil
  then show ?case by simp
next
  case (Cons n names)
  show ?case
  proof (cases vals)
    case Nil
    have "zip names (replicate (length names) z) = map (\<lambda>k. (k, z)) names"
      by (induction names) auto
    with Nil show ?thesis by simp
  next
    case (Cons v vs)
    with Cons.IH [of vs] show ?thesis by simp
  qed
qed

lemma map_fst_zip_le: "length ys \<le> length xs \<Longrightarrow> map fst (zip xs ys) = take (length ys) xs"
  by (induction xs ys rule: list_induct2') auto

lemma map_fst_zip_ge: "length xs \<le> length ys \<Longrightarrow> map fst (zip xs ys) = xs"
  by (induction xs ys rule: list_induct2') auto

lemma distinct_zip_keys: "distinct names \<Longrightarrow> distinct (map fst (zip names vals))"
proof (cases "length vals \<le> length names")
  case True
  assume "distinct names"
  then show ?thesis by (simp add: map_fst_zip_le [OF True])
next
  case False
  assume "distinct names"
  with False show ?thesis by (simp add: map_fst_zip_ge)
qed

lemma bind_row_positional:
  assumes "distinct names"
  shows "cells (bind_row names record) =
           zip names (map PStr record @ replicate (length names - length record) PNone)"
    and "surplus (bind_row names record) =
           (if length names < length record then Some (drop (length names) record) else None)"
proof -
  let ?vals = "map PStr record"
  have d: "dict_of (zip names ?vals) = zip names ?vals"
    unfolding dict_of_def
    using foldl_update_distinct [of "[]" "zip names ?vals"]
      distinct_zip_keys [OF assms, of ?vals]
    by simp
  show "surplus (bind_row names record) =
           (if length names < length record then Some (drop (length names) record) else None)"
    by (simp add: bind_row_def Let_def)
  show "cells (bind_row names record) =
           zip names (map PStr record @ replicate (length names - length record) PNone)"
  proof (cases "length record < length names")
    case True
    have keys: "map fst (zip names ?vals) = take (length record) names"
      using True by (simp add: map_fst_zip_le)
    have "distinct (map fst (zip names ?vals) @ drop (length record) names)"
      unfolding keys using assms by simp
    then have "foldl (\<lambda>d key. AList.update key PNone d) (zip names ?vals)
                 (drop (length record) names) =
               zip names ?vals @ map (\<lambda>k. (k, PNone)) (drop (length record) names)"
      by (rule foldl_fill_distinct)
    with True show ?thesis
      using zip_fill [of names ?vals PNone] by (simp add: bind_row_def Let_def d)
  next
    case False
    then show ?thesis
      using zip_fill [of names ?vals PNone] by (simp add: bind_row_def Let_def d)
  qed
qed

lemma field_names_distinct:
  "distinct cash_field_names" "distinct old_visa_field_names" "distinct new_visa_field_names"
  "distinct giro_field_names"
  by (simp_all add: cash_field_names_def old_visa_field_names_def new_visa_field_names_def
      giro_field_names_def zahlungsempfaenger_in_def str_def)

lemma open_csv_steps:
  assumes "open_csv e file_path names enc = Inr (rows, rerr)"
  shows "\<exists>file d lines records.
           open_text (files e) file_path enc = Inr file \<and>
           sniff e (take 1024 file) = Inr d \<and>
           find_transaction_lines (readlines file) = Inr lines \<and>
           csv_reader d parse_reset lines = (records, rerr) \<and>
           rows = map (bind_row names) (filter (\<lambda>record. record \<noteq> []) records)"
proof -
  from assms obtain whole where opened: "open_text (files e) file_path enc = Inr whole"
    by (auto simp: open_csv_def and_then_def split: sum.splits)
  from assms show ?thesis
    unfolding open_csv_opened [OF opened]
    by (auto simp: opened and_then_def DictReader_def split: sum.splits prod.splits)
qed


lemma cash_example_rows:
  "open_csv cash_env (str ''in.csv'') cash_field_names iso_8859_1 =
     Inr ([bind_row cash_field_names good_record], None)"
  unfolding open_csv_opened [OF cash_example_text]
  by (simp add: and_then_def
      str_def find_transaction_lines_def is_header_line_def DictReader_def
      parse_reset_def cash_env_def cash_example_def sniffed_def
      parse_add_char_def parse_save_field_def is_newline_def end_of_field_def add_char_then_def
      field_limit_def good_record_def)

lemma comma_example_rows:
  \<open>open_csv comma_env (str ''in.csv'') cash_field_names iso_8859_1 =
     Inr ([bind_row cash_field_names
             [str ''01.03.2023;02.03.2023'', str ''ACME; GmbH'', str ''-42,50'']], None)\<close>
  unfolding open_csv_opened [OF comma_example_text]
  by (simp add: and_then_def
      str_def find_transaction_lines_def is_header_line_def DictReader_def
      parse_reset_def comma_env_def comma_example_def comma_sniffed_def
      parse_add_char_def parse_save_field_def is_newline_def end_of_field_def add_char_then_def
      field_limit_def)

lemma comma_example_fixed:
  \<open>DictReader [str ''"01.03.2023;02.03.2023","ACME; GmbH","-42,50"'' @ [10]] DKB cash_field_names =
     ([bind_row cash_field_names
         [str ''01.03.2023;02.03.2023,"ACME'', str '' GmbH","-42,50"'']], None)\<close>
  by (simp add: str_def DictReader_def parse_reset_def DKB_def
      parse_add_char_def parse_save_field_def is_newline_def end_of_field_def add_char_then_def
      field_limit_def)

text \<open>
  Claim C9, as amended. The rows a converter reads are the records that the reader of
  the \<open>csv\<close> module finds in the lines after the header under the dialect that
  \<open>csv.Sniffer\<close> returns for the first 1024 characters of the file (its delimiter,
  quote character, \<open>doublequote\<close> and \<open>skipinitialspace\<close> are sniffed; quoting is
  minimal), empty records left out; and each record is bound to the field names of
  the format by position: the i-th name to the i-th field, to \<open>None\<close> when the record
  is shorter, the fields beyond the names kept under the rest key.
\<close>

theorem record_parser_sniffed_positional:
  assumes "names \<in> {cash_field_names, old_visa_field_names, new_visa_field_names, giro_field_names}"
    and "open_csv e file_path names enc = Inr (rows, rerr)"
  shows "\<exists>file d lines records.
           open_text (files e) file_path enc = Inr file \<and>
           sniff e (take 1024 file) = Inr d \<and>
           find_transaction_lines (readlines file) = Inr lines \<and>
           csv_reader d parse_reset lines = (records, rerr) \<and>
           rows = map (bind_row names) (filter (\<lambda>record. record \<noteq> []) records) \<and>
           (\<forall>record.
              cells (bind_row names record) =
                zip names (map PStr record @ replicate (length names - length record) PNone) \<and>
              surplus (bind_row names record) =
                (if length names < length record then Some (drop (length names) record)
                 else None))"
proof -
  have "distinct names"
    using assms(1) field_names_distinct by auto
  then have "\<forall>record.
      cells (bind_row names record) =
        zip names (map PStr record @ replicate (length names - length record) PNone) \<and>
      surplus (bind_row names record) =
        (if length names < length record then Some (drop (length names) record) else None)"
    using bind_row_positional by blast
  with open_csv_steps [OF assms(2)] show ?thesis
    by blast
qed

theorem record_parser_sniffed_positional_witness:
  "open_csv cash_env (str ''in.csv'') cash_field_names iso_8859_1 =
     Inr ([bind_row cash_field_names good_record], None) \<and>
   sniff cash_env (take 1024 (map of_char cash_example)) = Inr sniffed \<and>
   cells (bind_row cash_field_names good_record) = zip cash_field_names (map PStr good_record)"
proof -
  have n: "cash_field_names \<in>
      {cash_field_names, old_visa_field_names, new_visa_field_names, giro_field_names}"
    by simp
  from record_parser_sniffed_positional [OF n cash_example_rows]
  have "cells (bind_row cash_field_names good_record) =
          zip cash_field_names
            (map PStr good_record @
             replicate (length cash_field_names - length good_record) PNone)"
    by blast
  moreover have "length cash_field_names - length good_record = 0"
    by (simp add: cash_field_names_def good_record_def)
  ultimately show ?thesis
    using cash_example_rows by (simp add: cash_env_def)
qed

text \<open>
  The claim as stated fixes the delimiter \<open>;\<close>. On the export separated by commas the
  sniffed delimiter is the comma, and the record read from the data line has the
  three fields the commas separate, not the two that the \<open>DKB\<close> dialect finds in
  the same line.
\<close>

theorem record_parser_not_fixed_dialect:
  \<open>open_csv comma_env (str ''in.csv'') cash_field_names iso_8859_1 =
     Inr ([bind_row cash_field_names
             [str ''01.03.2023;02.03.2023'', str ''ACME; GmbH'', str ''-42,50'']], None) \<and>
   DictReader [str ''"01.03.2023;02.03.2023","ACME; GmbH","-42,50"'' @ [10]] DKB cash_field_names =
     ([bind_row cash_field_names
         [str ''01.03.2023;02.03.2023,"ACME'', str '' GmbH","-42,50"'']], None) \<and>
   open_csv comma_env (str ''in.csv'') cash_field_names iso_8859_1 \<noteq>
     Inr (DictReader [str ''"01.03.2023;02.03.2023","ACME; GmbH","-42,50"'' @ [10]] DKB
            cash_field_names)\<close>
proof -
  have \<open>bind_row cash_field_names
          [str ''01.03.2023;02.03.2023'', str ''ACME; GmbH'', str ''-42,50''] \<noteq>
        bind_row cash_field_names
          [str ''01.03.2023;02.03.2023,"ACME'', str '' GmbH","-42,50"'']\<close>
    by (simp add: bind_row_def cash_field_names_def dict_of_def str_def)
  then show ?thesis
    unfolding comma_example_rows comma_example_fixed by simp
qed

end
